theory Spec2Isabelle
  imports Complex_Main "HOL-Library.AList" "HOL-Library.Sublist" "HOL-Library.Multiset"
    "HOL-Library.Log_Nat"
begin

section \<open>The cleaning script \<open>dataframe_cleaning.py\<close>\<close>

text \<open>
  The program is one straight-line PySpark script: it loads a CSV file into the variable
  \<open>df\<close> and reassigns \<open>df\<close> stage after stage (lines 16 to 66), then shows and writes it.
  The only values it computes outside the data frame are \<open>quantiles\<close>, \<open>lower_bound\<close> and
  \<open>upper_bound\<close> (lines 46 to 48).

  The script is modelled with explicit state passing. A data frame is a schema and a list of
  partitions of rows; a Spark column expression is its analysis against a schema together
  with its value on a row; every Python or Spark exception is a value of type \<open>error\<close>.
  Numeric cells are real numbers: the integers and the finite doubles. NaN and the
  infinities are outside the model, and so is the rounding of arithmetic; the one rounding
  the script's expressions contain, the cast of a 64-bit integer to a double, is modelled.
\<close>

subsection \<open>Values, types and rows\<close>

datatype val = Null | Str string | Num real | Bool bool | Date int | Timestamp int

datatype dtype =
  StringType | IntegerType | LongType | DoubleType | BooleanType | DateType | TimestampType

datatype error =
  IndexError | NameError | ValueError | AnalysisException | IllegalArgumentException
  | EngineError string

text \<open>A record (row) is an ordered mapping from column name to value.\<close>

type_synonym row = "(string \<times> val) list"

type_synonym struct = "(string \<times> dtype) list"

record dataframe =
  schema :: struct
  partitions :: "row list list"

definition numeric :: "dtype \<Rightarrow> bool" where
  "numeric t = (t = IntegerType \<or> t = LongType \<or> t = DoubleType)"

definition cell :: "row \<Rightarrow> string \<Rightarrow> val" where
  "cell r name = (case map_of r name of None \<Rightarrow> Null | Some v \<Rightarrow> v)"

subsection \<open>Column expressions\<close>

text \<open>
  A \<open>Column\<close> is built by \<open>col\<close>, by a Python literal, by a comparison and by
  \<open>when\<close>/\<open>otherwise\<close>. Spark resolves it against the schema when \<open>withColumn\<close> is called
  (\<open>analyse\<close>: an unknown column name raises \<open>AnalysisException\<close>) and evaluates it on
  each row (\<open>compute\<close>); the schema decides which casts the evaluation contains.
\<close>

record column =
  analyse :: "struct \<Rightarrow> error + dtype"
  compute :: "struct \<Rightarrow> row \<Rightarrow> val"

definition col :: "string \<Rightarrow> column" where
  "col name =
     \<lparr>analyse = (\<lambda>s. case map_of s name of None \<Rightarrow> Inl AnalysisException | Some t \<Rightarrow> Inr t),
      compute = (\<lambda>s r. cell r name)\<rparr>"

text \<open>A Python \<open>float\<close> and a Python \<open>str\<close> used where Spark expects a column.\<close>

definition lit_float :: "real \<Rightarrow> column" where
  "lit_float x = \<lparr>analyse = (\<lambda>s. Inr DoubleType), compute = (\<lambda>s r. Num x)\<rparr>"

definition lit_str :: "string \<Rightarrow> column" where
  "lit_str x = \<lparr>analyse = (\<lambda>s. Inr StringType), compute = (\<lambda>s r. Str x)\<rparr>"

definition static_type :: "column \<Rightarrow> struct \<Rightarrow> dtype option" where
  "static_type c s = (case analyse c s of Inl e \<Rightarrow> None | Inr t \<Rightarrow> Some t)"

text \<open>
  Where two operands, or the branches of a \<open>CASE\<close>, have different types, Spark casts them
  to the wider one. Between the numeric types of this model only one cast changes a value:
  a 64-bit integer is cast to a \<open>double\<close> by rounding to the nearest number with a 53-bit
  significand, ties to the even one. Every integer of magnitude up to \<open>2^53\<close> is kept.
  Casts between other kinds of types do not occur in the comparisons and \<open>when\<close> chains
  of the script and leave the value as it is here.
\<close>

definition wider :: "dtype \<Rightarrow> dtype \<Rightarrow> dtype" where
  "wider a b =
     (if a = b then a
      else if numeric a \<and> numeric b then
        (if a = DoubleType \<or> b = DoubleType then DoubleType else LongType)
      else StringType)"

definition long_to_double :: "int \<Rightarrow> real" where
  "long_to_double n =
     (let a = \<bar>n\<bar>; e = nat (bitlen a - 53); q = a div 2 ^ e; r = a mod 2 ^ e
      in if e = 0 then of_int n
         else of_int (sgn n * (if 2 ^ e < 2 * r \<or> (2 * r = 2 ^ e \<and> odd q) then q + 1 else q)
                        * 2 ^ e))"

definition coerce :: "dtype \<Rightarrow> dtype \<Rightarrow> val \<Rightarrow> val" where
  "coerce from to v =
     (case v of
        Num x \<Rightarrow> if from = LongType \<and> to = DoubleType then Num (long_to_double \<lfloor>x\<rfloor>) else v
      | _ \<Rightarrow> v)"

definition coerced :: "column \<Rightarrow> dtype option \<Rightarrow> struct \<Rightarrow> row \<Rightarrow> val" where
  \<comment> \<open>the value of \<open>c\<close>, cast to the type \<open>target\<close>\<close>
  "coerced c target s r =
     (case static_type c s of
        None \<Rightarrow> compute c s r
      | Some from \<Rightarrow> (case target of
          None \<Rightarrow> compute c s r
        | Some to \<Rightarrow> coerce from to (compute c s r)))"

text \<open>
  SQL comparisons are three-valued: a comparison with NULL is NULL. The script compares
  \<open>numeric_column\<close> with floats (lines 51, 52) and the string column
  \<open>categorical_column\<close> with strings (lines 41, 42).
\<close>

fun sql_lt :: "val \<Rightarrow> val \<Rightarrow> val" where
  "sql_lt (Num a) (Num b) = Bool (a < b)"
| "sql_lt (Date a) (Date b) = Bool (a < b)"
| "sql_lt (Timestamp a) (Timestamp b) = Bool (a < b)"
| "sql_lt (Bool a) (Bool b) = Bool (a < b)"
| "sql_lt _ _ = Null"

fun sql_eq :: "val \<Rightarrow> val \<Rightarrow> val" where
  "sql_eq (Num a) (Num b) = Bool (a = b)"
| "sql_eq (Str a) (Str b) = Bool (a = b)"
| "sql_eq (Date a) (Date b) = Bool (a = b)"
| "sql_eq (Timestamp a) (Timestamp b) = Bool (a = b)"
| "sql_eq (Bool a) (Bool b) = Bool (a = b)"
| "sql_eq _ _ = Null"

definition common_type :: "dtype option \<Rightarrow> dtype option \<Rightarrow> dtype option" where
  "common_type a b =
     (case a of None \<Rightarrow> None
      | Some x \<Rightarrow> (case b of None \<Rightarrow> None | Some y \<Rightarrow> Some (wider x y)))"

definition comparison :: "(val \<Rightarrow> val \<Rightarrow> val) \<Rightarrow> column \<Rightarrow> column \<Rightarrow> column" where
  "comparison f a b =
     \<lparr>analyse = (\<lambda>s. case analyse a s of Inl e \<Rightarrow> Inl e
                   | Inr _ \<Rightarrow> (case analyse b s of Inl e \<Rightarrow> Inl e | Inr _ \<Rightarrow> Inr BooleanType)),
      compute = (\<lambda>s r. f (coerced a (common_type (static_type a s) (static_type b s)) s r)
                         (coerced b (common_type (static_type a s) (static_type b s)) s r))\<rparr>"

definition col_lt :: "column \<Rightarrow> column \<Rightarrow> column" where
  "col_lt a b = comparison sql_lt a b"

definition col_gt :: "column \<Rightarrow> column \<Rightarrow> column" where
  "col_gt a b = comparison (\<lambda>x y. sql_lt y x) a b"

definition col_eq :: "column \<Rightarrow> column \<Rightarrow> column" where
  "col_eq a b = comparison sql_eq a b"

text \<open>
  \<open>when(c, v).when(c', v')...otherwise(e)\<close> is SQL's \<open>CASE WHEN\<close>: the value of the first
  branch whose condition is true, and \<open>e\<close> when no condition is true (a NULL condition is
  not true). Its type is the common type of the branch values, and every branch value is
  cast to it.
\<close>

type_synonym branches = "(column \<times> column) list"

definition when_col :: "column \<Rightarrow> column \<Rightarrow> branches" where
  "when_col c v = [(c, v)]"

definition when_more :: "branches \<Rightarrow> column \<Rightarrow> column \<Rightarrow> branches" where
  "when_more bs c v = bs @ [(c, v)]"

fun case_type :: "branches \<Rightarrow> column \<Rightarrow> struct \<Rightarrow> error + dtype" where
  "case_type [] e s = analyse e s"
| "case_type ((c, v) # bs) e s =
     (case analyse c s of Inl err \<Rightarrow> Inl err
      | Inr _ \<Rightarrow> (case analyse v s of Inl err \<Rightarrow> Inl err
         | Inr t \<Rightarrow> (case case_type bs e s of Inl err \<Rightarrow> Inl err
            | Inr t' \<Rightarrow> Inr (wider t t'))))"

fun case_value :: "dtype option \<Rightarrow> branches \<Rightarrow> column \<Rightarrow> struct \<Rightarrow> row \<Rightarrow> val" where
  "case_value t [] e s r = coerced e t s r"
| "case_value t ((c, v) # bs) e s r =
     (if compute c s r = Bool True then coerced v t s r else case_value t bs e s r)"

definition otherwise :: "branches \<Rightarrow> column \<Rightarrow> column" where
  "otherwise bs e =
     \<lparr>analyse = case_type bs e,
      compute = (\<lambda>s r. case_value (case case_type bs e s of Inl err \<Rightarrow> None | Inr t \<Rightarrow> Some t)
                          bs e s r)\<rparr>"

subsection \<open>\<open>withColumn\<close>\<close>

text \<open>
  \<open>df.withColumn(name, c)\<close> replaces the column \<open>name\<close> in place when the schema has it and
  appends it otherwise; every other column is carried over.
\<close>

definition withColumn :: "string \<Rightarrow> column \<Rightarrow> dataframe \<Rightarrow> error + dataframe" where
  "withColumn name c d =
     (case analyse c (schema d) of
        Inl e \<Rightarrow> Inl e
      | Inr t \<Rightarrow> Inr \<lparr>schema = AList.update name t (schema d),
                     partitions = map (map (\<lambda>r. AList.update name (compute c (schema d) r) r))
                                      (partitions d)\<rparr>)"

subsection \<open>The two \<open>when\<close> chains of the script\<close>

text \<open>Lines 40 to 43: the expression assigned to \<open>categorical_column\<close>.\<close>

definition categorical_column :: column where
  "categorical_column =
     otherwise
       (when_more
          (when_col (col_eq (col ''categorical_column'') (lit_str ''yes'')) (lit_str ''yes''))
          (col_eq (col ''categorical_column'') (lit_str ''no'')) (lit_str ''no''))
       (col ''categorical_column'')"

text \<open>
  Lines 50 to 53: the expression assigned to \<open>numeric_column_capped\<close>. Both bounds are
  Python floats, so the expression is of type \<open>double\<close> and the cell of \<open>numeric_column\<close>
  is cast to \<open>double\<close> in the comparisons and in the \<open>otherwise\<close> branch.
\<close>

definition numeric_column_capped :: "real \<Rightarrow> real \<Rightarrow> column" where
  "numeric_column_capped lower_bound upper_bound =
     otherwise
       (when_more
          (when_col (col_lt (col ''numeric_column'') (lit_float lower_bound))
                    (lit_float lower_bound))
          (col_gt (col ''numeric_column'') (lit_float upper_bound)) (lit_float upper_bound))
       (col ''numeric_column'')"

definition clamp :: "real \<Rightarrow> real \<Rightarrow> dataframe \<Rightarrow> error + dataframe" where
  \<comment> \<open>the \<open>withColumn\<close> of lines 50 to 53\<close>
  "clamp lo hi = withColumn ''numeric_column_capped'' (numeric_column_capped lo hi)"

subsection \<open>The quantile sketch behind \<open>approxQuantile\<close>\<close>

text \<open>
  Line 46 delegates the quantile computation to Spark's \<open>approxQuantile\<close>, whose code
  (the quantile summary, its merge and the driver that combines the partitions) is not part
  of the repository. That part is modelled from the specification's sections 4.1 to 4.3
  (one sketch per partition, pairwise merge, queries against the merged sketch), at the
  relative error the script passes, \<open>0.0\<close>: with an error budget of zero no two tuples of
  different value are ever combined, and tuples of equal value always are, so a sketch is
  the list of the distinct values seen, ascending, each with its weight.
\<close>

type_synonym sketch = "(real \<times> nat) list"

definition empty_sketch :: sketch where
  \<comment> \<open>Modelled from the spec: the empty quantile summary of Spark, whose code is missing;
      the sketch "created empty per partition at stage start".\<close>
  "empty_sketch = []"

fun insert_value :: "real \<Rightarrow> sketch \<Rightarrow> sketch" where
  \<comment> \<open>Modelled from the spec: insertion into Spark's quantile summary, whose code is
      missing; \<open>insert\<close> of 4.1, "locate the insertion point by value and either merge into
      an existing tuple or create a new tuple". With no error budget only a tuple of equal
      value takes the new value (its weight grows by one).\<close>
  "insert_value x [] = [(x, 1)]"
| "insert_value x ((v, w) # s) =
     (if x < v then (x, 1) # (v, w) # s
      else if x = v then (v, w + 1) # s
      else (v, w) # insert_value x s)"

fun interleave :: "sketch \<Rightarrow> sketch \<Rightarrow> sketch" where
  \<comment> \<open>Modelled from the spec: the first half of the summaries' merge, whose code is
      missing; the "merge-sort-style walk" over two tuple sequences of 4.2.\<close>
  "interleave [] b = b"
| "interleave a [] = a"
| "interleave ((v, w) # a) ((u, z) # b) =
     (if v \<le> u then (v, w) # interleave a ((u, z) # b)
      else (u, z) # interleave ((v, w) # a) b)"

fun compress :: "sketch \<Rightarrow> sketch" where
  \<comment> \<open>Modelled from the spec: the summary's compression, whose code is missing. With no
      error budget it is the tie-break rule of 4.1 alone, "when two tuples have equal value,
      merge eagerly (weight sums)".\<close>
  "compress [] = []"
| "compress [t] = [t]"
| "compress ((v, w) # (u, z) # s) =
     (if v = u then compress ((v, w + z) # s) else (v, w) # compress ((u, z) # s))"

definition merge :: "sketch \<Rightarrow> sketch \<Rightarrow> sketch" where
  \<comment> \<open>Modelled from the spec: the merge of two quantile summaries, whose code is missing;
      \<open>merge\<close> of 4.2, interleave and "re-run compression afterward".\<close>
  "merge a b = compress (interleave a b)"

definition total_weight :: "sketch \<Rightarrow> nat" where
  "total_weight s = sum_list (map snd s)"

fun locate :: "nat \<Rightarrow> sketch \<Rightarrow> real option" where
  \<comment> \<open>The value whose tuple covers position \<open>k\<close> (counted from 1) of the sorted values.\<close>
  "locate k [] = None"
| "locate k ((v, w) # s) = (if k \<le> w then Some v else locate (k - w) s)"

definition query :: "sketch \<Rightarrow> real \<Rightarrow> real option" where
  \<comment> \<open>Modelled from the spec: the query of a quantile summary, whose code is missing;
      \<open>query\<close> of 4.1. \<open>None\<close> is the spec's \<open>EmptySketch\<close>: a sketch of total weight zero
      has no answer. Otherwise the answer is the exact quantile, the value at position
      \<open>ceiling (rank * N)\<close> of the \<open>N\<close> sorted values (the minimum for rank 0).\<close>
  "query s rank =
     (if total_weight s = 0 then None
      else locate (nat \<lceil>rank * real (total_weight s)\<rceil>) s)"

text \<open>
  The partition scanner yields the numeric values of the column in one partition, nulls
  left out (\<open>approxQuantile\<close> removes nulls before the calculation).
\<close>

fun scan :: "string \<Rightarrow> row list \<Rightarrow> real list" where
  "scan c [] = []"
| "scan c (r # rs) = (case cell r c of Num x \<Rightarrow> x # scan c rs | _ \<Rightarrow> scan c rs)"

definition partition_sketch :: "string \<Rightarrow> row list \<Rightarrow> sketch" where
  \<comment> \<open>Modelled from the spec: the summary Spark builds for one partition, whose code is
      missing; the per-partition sketch, "populated by sequential insertion of that
      partition's values".\<close>
  "partition_sketch c rs = fold insert_value (scan c rs) empty_sketch"

definition global_sketch :: "string \<Rightarrow> row list list \<Rightarrow> sketch" where
  \<comment> \<open>Modelled from the spec: the combination of the partitions' summaries, whose code is
      missing; the coordinator of 4.3, here the sequential reduction of the per-partition
      sketches by pairwise \<open>merge\<close>.\<close>
  "global_sketch c ps = foldl merge empty_sketch (map (partition_sketch c) ps)"

text \<open>
  \<open>df.approxQuantile(col, probabilities, relativeError)\<close>, the call of line 46. Around the
  sketch, the call behaves as PySpark documents it: the probabilities must lie in
  \<open>[0, 1]\<close> and the relative error must not be negative (\<open>ValueError\<close>); the column must
  exist and be numeric; "if the dataframe is empty or the column only contains null or NaN,
  an empty array is returned" (where the specification would have \<open>EmptySketch\<close> raised);
  with relative error zero "the exact quantiles are computed". A positive relative error
  would allow Spark any value whose rank is that close; the model answers with the exact
  quantile then as well, and the script never passes one.
\<close>

definition approxQuantile ::
  "dataframe \<Rightarrow> string \<Rightarrow> real list \<Rightarrow> real \<Rightarrow> error + real list" where
  \<comment> \<open>Modelled from the spec: Spark's \<open>approxQuantile\<close>, whose code is missing; the
      \<open>estimate\<close> of 4.3 over the merged sketch. The argument checks and the empty answer
      are those of PySpark's documentation.\<close>
  "approxQuantile d c probabilities relativeError =
     (if (\<exists>p \<in> set probabilities. p < 0 \<or> 1 < p) \<or> relativeError < 0 then Inl ValueError
      else case map_of (schema d) c of
        None \<Rightarrow> Inl AnalysisException
      | Some t \<Rightarrow>
          if \<not> numeric t then Inl IllegalArgumentException
          else (case those (map (query (global_sketch c (partitions d))) probabilities) of
                  None \<Rightarrow> Inr []
                | Some qs \<Rightarrow> Inr qs))"

text \<open>
  What the specification's testable properties measure. The values equal to \<open>v\<close> occupy
  the positions from \<open>count_below + 1\<close> to \<open>count_upto\<close> of the sorted column, so the
  ranks of \<open>v\<close> are the interval from \<open>count_below / N\<close> to \<open>count_upto / N\<close>;
  \<open>rank_error\<close> is the distance of the requested rank from that interval.
\<close>

definition count_below :: "real \<Rightarrow> real list \<Rightarrow> nat" where
  "count_below v xs = length (filter (\<lambda>x. x < v) xs)"

definition count_upto :: "real \<Rightarrow> real list \<Rightarrow> nat" where
  "count_upto v xs = length (filter (\<lambda>x. x \<le> v) xs)"

definition rank_error :: "real list \<Rightarrow> real \<Rightarrow> real \<Rightarrow> real" where
  "rank_error xs rank v =
     (let n = real (length xs); lo = real (count_below v xs) / n; hi = real (count_upto v xs) / n
      in if rank < lo then lo - rank else if hi < rank then rank - hi else 0)"

definition column_values :: "string \<Rightarrow> dataframe \<Rightarrow> real list" where
  "column_values c d = concat (map (scan c) (partitions d))"

subsection \<open>Python variables and list indexing\<close>

definition getitem :: "'a list \<Rightarrow> nat \<Rightarrow> error + 'a" where
  \<comment> \<open>\<open>xs[i]\<close> for the literal indices 0 and 1 of lines 47 and 48.\<close>
  "getitem xs i = (if i < length xs then Inr (xs ! i) else Inl IndexError)"

record state =
  df :: dataframe
  quantiles :: "real list option"
  lower_bound :: "real option"
  upper_bound :: "real option"
  written :: "(string \<times> dataframe) option"

definition start :: "dataframe \<Rightarrow> state" where
  \<comment> \<open>The state after line 13: \<open>df\<close> is the loaded data set, nothing else is assigned.\<close>
  "start d = \<lparr>df = d, quantiles = None, lower_bound = None, upper_bound = None,
              written = None\<rparr>"

definition assign_df :: "(dataframe \<Rightarrow> error + dataframe) \<Rightarrow> state \<Rightarrow> error + state" where
  \<comment> \<open>\<open>df = f(df)\<close>\<close>
  "assign_df f s = (case f (df s) of Inl e \<Rightarrow> Inl e | Inr d \<Rightarrow> Inr (s\<lparr>df := d\<rparr>))"

text \<open>Lines 46 to 48.\<close>

definition relativeError_passed :: real where
  \<comment> \<open>the third argument of the call at line 46\<close>
  "relativeError_passed = 0.0"

definition assign_quantiles :: "state \<Rightarrow> error + state" where
  "assign_quantiles s =
     (case approxQuantile (df s) ''numeric_column'' [0.05, 0.95] relativeError_passed of
        Inl e \<Rightarrow> Inl e
      | Inr qs \<Rightarrow> Inr (s\<lparr>quantiles := Some qs\<rparr>))"

definition assign_lower_bound :: "state \<Rightarrow> error + state" where
  "assign_lower_bound s =
     (case quantiles s of
        None \<Rightarrow> Inl NameError
      | Some qs \<Rightarrow> (case getitem qs 0 of Inl e \<Rightarrow> Inl e
                    | Inr x \<Rightarrow> Inr (s\<lparr>lower_bound := Some x\<rparr>)))"

definition assign_upper_bound :: "state \<Rightarrow> error + state" where
  "assign_upper_bound s =
     (case quantiles s of
        None \<Rightarrow> Inl NameError
      | Some qs \<Rightarrow> (case getitem qs 1 of Inl e \<Rightarrow> Inl e
                    | Inr x \<Rightarrow> Inr (s\<lparr>upper_bound := Some x\<rparr>)))"

text \<open>Lines 50 to 53.\<close>

definition cap_numeric_column :: "state \<Rightarrow> error + state" where
  "cap_numeric_column s =
     (case lower_bound s of
        None \<Rightarrow> Inl NameError
      | Some lo \<Rightarrow> (case upper_bound s of
          None \<Rightarrow> Inl NameError
        | Some hi \<Rightarrow> assign_df (clamp lo hi) s))"

subsection \<open>The Spark operations the script only calls\<close>

text \<open>
  Deduplication, null handling, the string functions, explicit casts, renaming, dropping,
  repartitioning, showing and writing are Spark's; the specification treats them as
  external collaborators. They are parameters of the model: everything below holds for
  every \<open>engine\<close>. Each data frame operation may raise. \<open>cast\<close> takes the type of the
  operand, the target type and the value.
\<close>

record engine =
  dropDuplicates :: "dataframe \<Rightarrow> error + dataframe"
  dropna :: "string list \<Rightarrow> dataframe \<Rightarrow> error + dataframe"
  fillna :: "(string \<times> val) list \<Rightarrow> dataframe \<Rightarrow> error + dataframe"
  regexp_replace :: "string \<Rightarrow> string \<Rightarrow> string \<Rightarrow> string"
  lower :: "string \<Rightarrow> string"
  trim :: "string \<Rightarrow> string"
  cast :: "dtype \<Rightarrow> dtype \<Rightarrow> val \<Rightarrow> val"
  withColumnRenamed :: "string \<Rightarrow> string \<Rightarrow> dataframe \<Rightarrow> error + dataframe"
  drop_columns :: "string list \<Rightarrow> dataframe \<Rightarrow> error + dataframe"
  repartition :: "nat \<Rightarrow> dataframe \<Rightarrow> error + dataframe"
  show_rows :: "nat \<Rightarrow> dataframe \<Rightarrow> error + unit"
  write_csv :: "string \<Rightarrow> dataframe \<Rightarrow> error + unit"

text \<open>
  A string function applied to a column: the operand is cast to a string, NULL stays NULL,
  the result is a string column.
\<close>

definition string_function :: "engine \<Rightarrow> (string \<Rightarrow> string) \<Rightarrow> column \<Rightarrow> column" where
  "string_function eng f c =
     \<lparr>analyse = (\<lambda>s. case analyse c s of Inl e \<Rightarrow> Inl e | Inr _ \<Rightarrow> Inr StringType),
      compute = (\<lambda>s r. case static_type c s of
                          None \<Rightarrow> Null
                        | Some t \<Rightarrow> (case cast eng t StringType (compute c s r) of
                                       Str x \<Rightarrow> Str (f x)
                                     | _ \<Rightarrow> Null))\<rparr>"

definition type_named :: "string \<Rightarrow> dtype option" where
  "type_named n =
     (if n = ''string'' then Some StringType
      else if n = ''int'' \<or> n = ''integer'' then Some IntegerType
      else if n = ''bigint'' \<or> n = ''long'' then Some LongType
      else if n = ''double'' then Some DoubleType
      else if n = ''boolean'' then Some BooleanType
      else if n = ''date'' then Some DateType
      else if n = ''timestamp'' then Some TimestampType
      else None)"

definition cast_column :: "engine \<Rightarrow> column \<Rightarrow> string \<Rightarrow> column" where
  \<comment> \<open>\<open>c.cast(name)\<close>\<close>
  "cast_column eng c n =
     \<lparr>analyse = (\<lambda>s. case analyse c s of Inl e \<Rightarrow> Inl e
                   | Inr _ \<Rightarrow> (case type_named n of None \<Rightarrow> Inl AnalysisException
                               | Some t \<Rightarrow> Inr t)),
      compute = (\<lambda>s r. case static_type c s of
                          None \<Rightarrow> Null
                        | Some from \<Rightarrow> (case type_named n of
                                          None \<Rightarrow> Null
                                        | Some to \<Rightarrow> cast eng from to (compute c s r)))\<rparr>"

definition show_df :: "engine \<Rightarrow> nat \<Rightarrow> state \<Rightarrow> error + state" where
  \<comment> \<open>\<open>df.show(n)\<close> prints and assigns nothing.\<close>
  "show_df eng n s = (case show_rows eng n (df s) of Inl e \<Rightarrow> Inl e | Inr _ \<Rightarrow> Inr s)"

definition write_df :: "engine \<Rightarrow> string \<Rightarrow> state \<Rightarrow> error + state" where
  "write_df eng path s =
     (case write_csv eng path (df s) of
        Inl e \<Rightarrow> Inl e
      | Inr _ \<Rightarrow> Inr (s\<lparr>written := Some (path, df s)\<rparr>))"

subsection \<open>The statements of the script\<close>

text \<open>
  The right-hand side of each assignment to \<open>df\<close>, as a function of the data frame.
  The regular expression of line 31 is \<open>[^a-zA-Z0-9\s]\<close>.
\<close>

definition drop_missing :: "engine \<Rightarrow> dataframe \<Rightarrow> error + dataframe" where
  \<comment> \<open>line 20\<close>
  "drop_missing eng = dropna eng [''important_column1'', ''important_column2'']"

definition fill_missing :: "engine \<Rightarrow> dataframe \<Rightarrow> error + dataframe" where
  \<comment> \<open>lines 23 to 27\<close>
  "fill_missing eng =
     fillna eng [(''column1'', Str ''Unknown''), (''column2'', Num 0), (''column3'', Str ''N/A'')]"

definition clean_text :: "engine \<Rightarrow> dataframe \<Rightarrow> error + dataframe" where
  \<comment> \<open>line 31\<close>
  "clean_text eng =
     withColumn ''cleaned_text''
       (string_function eng (regexp_replace eng (''[^a-zA-Z0-9'' @ [CHR 0x5C] @ ''s]'') [])
          (col ''text_column''))"

definition lowercase_text :: "engine \<Rightarrow> dataframe \<Rightarrow> error + dataframe" where
  \<comment> \<open>line 32\<close>
  "lowercase_text eng =
     withColumn ''cleaned_text'' (string_function eng (lower eng) (col ''cleaned_text''))"

definition trim_text :: "engine \<Rightarrow> dataframe \<Rightarrow> error + dataframe" where
  \<comment> \<open>line 35\<close>
  "trim_text eng =
     withColumn ''cleaned_text'' (string_function eng (trim eng) (col ''cleaned_text''))"

definition normalize_categorical :: "engine \<Rightarrow> dataframe \<Rightarrow> error + dataframe" where
  \<comment> \<open>line 39\<close>
  "normalize_categorical eng =
     withColumn ''categorical_column''
       (string_function eng (lower eng)
          (string_function eng (trim eng) (col ''categorical_column'')))"

definition standardize_categorical :: "dataframe \<Rightarrow> error + dataframe" where
  \<comment> \<open>lines 40 to 43\<close>
  "standardize_categorical = withColumn ''categorical_column'' categorical_column"

definition cast_numeric :: "engine \<Rightarrow> dataframe \<Rightarrow> error + dataframe" where
  \<comment> \<open>line 56\<close>
  "cast_numeric eng =
     withColumn ''numeric_column'' (cast_column eng (col ''numeric_column'') ''double'')"

definition cast_date :: "engine \<Rightarrow> dataframe \<Rightarrow> error + dataframe" where
  \<comment> \<open>line 57\<close>
  "cast_date eng = withColumn ''date_column'' (cast_column eng (col ''date_column'') ''date'')"

definition rename_column :: "engine \<Rightarrow> dataframe \<Rightarrow> error + dataframe" where
  \<comment> \<open>line 60\<close>
  "rename_column eng = withColumnRenamed eng ''old_column_name'' ''new_column_name''"

definition drop_unnecessary :: "engine \<Rightarrow> dataframe \<Rightarrow> error + dataframe" where
  \<comment> \<open>line 63\<close>
  "drop_unnecessary eng = drop_columns eng [''unnecessary_column1'', ''unnecessary_column2'']"

definition output_path :: string where
  \<comment> \<open>line 72\<close>
  "output_path = ''path/to/cleaned_dataset.csv''"

subsection \<open>The script, statement by statement\<close>

text \<open>Each statement from line 16 to line 72 with its line number, in the order of the file.\<close>

definition script :: "engine \<Rightarrow> (nat \<times> (state \<Rightarrow> error + state)) list" where
  "script eng =
    [(16, assign_df (dropDuplicates eng)),
     (20, assign_df (drop_missing eng)),
     (23, assign_df (fill_missing eng)),
     (31, assign_df (clean_text eng)),
     (32, assign_df (lowercase_text eng)),
     (35, assign_df (trim_text eng)),
     (39, assign_df (normalize_categorical eng)),
     (40, assign_df standardize_categorical),
     (46, assign_quantiles),
     (47, assign_lower_bound),
     (48, assign_upper_bound),
     (50, cap_numeric_column),
     (56, assign_df (cast_numeric eng)),
     (57, assign_df (cast_date eng)),
     (60, assign_df (rename_column eng)),
     (63, assign_df (drop_unnecessary eng)),
     (66, assign_df (repartition eng 10)),
     (69, show_df eng 10),
     (72, write_df eng output_path)]"

text \<open>
  Running statements in order: an exception ends the run (the script has no handler). The
  log lists the lines that were run, the one that raised last.
\<close>

fun run :: "(nat \<times> (state \<Rightarrow> error + state)) list \<Rightarrow> state \<Rightarrow> nat list \<times> (error + state)" where
  "run [] s = ([], Inr s)"
| "run ((n, f) # rest) s =
     (case f s of
        Inl e \<Rightarrow> ([n], Inl e)
      | Inr s' \<Rightarrow> (case run rest s' of (ls, result) \<Rightarrow> (n # ls, result)))"

definition pipeline :: "engine \<Rightarrow> dataframe \<Rightarrow> nat list \<times> (error + state)" where
  "pipeline eng d = run (script eng) (start d)"

text \<open>The statements of the script from line \<open>a\<close> to line \<open>b\<close>.\<close>

definition lines_between ::
  "nat \<Rightarrow> nat \<Rightarrow> (nat \<times> (state \<Rightarrow> error + state)) list
     \<Rightarrow> (nat \<times> (state \<Rightarrow> error + state)) list" where
  "lines_between a b prog = filter (\<lambda>(l, f). a \<le> l \<and> l \<le> b) prog"

subsection \<open>The stages\<close>

text \<open>
  The stage each line belongs to, after the numbered comments of the script: comment 1 is
  deduplication, 2 missing values, 3 and 4 the text and categorical normalization, 5 the
  outlier capping (the quantile estimation of lines 46 to 48, then the clamp of line 50),
  6 type coercion, 7 and 8 rename and drop, 9 repartition; line 72 writes. Line 69 only
  shows rows and belongs to no stage.
\<close>

datatype stage =
  Dedup | MissingValues | Normalization | QuantileEstimation | Clamp | TypeCoercion
  | RenameDrop | Repartition | Write

definition stage_of :: "nat \<Rightarrow> stage option" where
  "stage_of n =
     (if n = 16 then Some Dedup
      else if n = 20 \<or> n = 23 then Some MissingValues
      else if n = 31 \<or> n = 32 \<or> n = 35 \<or> n = 39 \<or> n = 40 then Some Normalization
      else if n = 46 \<or> n = 47 \<or> n = 48 then Some QuantileEstimation
      else if n = 50 then Some Clamp
      else if n = 56 \<or> n = 57 then Some TypeCoercion
      else if n = 60 \<or> n = 63 then Some RenameDrop
      else if n = 66 then Some Repartition
      else if n = 72 then Some Write
      else None)"

definition stages_run :: "nat list \<Rightarrow> stage list" where
  "stages_run ls = remdups_adj (List.map_filter stage_of ls)"

definition fixed_order :: "stage list" where
  "fixed_order =
     [Dedup, MissingValues, Normalization, QuantileEstimation, Clamp, TypeCoercion,
      RenameDrop, Repartition, Write]"

text \<open>
  The specification's sequencer (section 4.4): each stage is a function from data set to
  data set that may fail, the stages are composed in the fixed order, each working on the
  output of the one before, and a failure of any stage is the failure of the whole. The
  quantile estimation hands its bounds to the clamp. Between repartition and write the rows
  are shown (line 69): that changes no data but can fail.
\<close>

definition and_then :: "error + 'a \<Rightarrow> ('a \<Rightarrow> error + 'b) \<Rightarrow> error + 'b" where
  "and_then x f = (case x of Inl e \<Rightarrow> Inl e | Inr a \<Rightarrow> f a)"

definition missing_values :: "engine \<Rightarrow> dataframe \<Rightarrow> error + dataframe" where
  "missing_values eng d = and_then (drop_missing eng d) (fill_missing eng)"

definition normalization :: "engine \<Rightarrow> dataframe \<Rightarrow> error + dataframe" where
  "normalization eng d =
     and_then (and_then (and_then (and_then (clean_text eng d) (lowercase_text eng))
       (trim_text eng)) (normalize_categorical eng)) standardize_categorical"

definition quantile_estimation :: "dataframe \<Rightarrow> error + (real list \<times> real \<times> real)" where
  "quantile_estimation d =
     and_then (approxQuantile d ''numeric_column'' [0.05, 0.95] relativeError_passed)
       (\<lambda>qs. and_then (getitem qs 0) (\<lambda>lo. and_then (getitem qs 1) (\<lambda>hi. Inr (qs, lo, hi))))"

definition type_coercion :: "engine \<Rightarrow> dataframe \<Rightarrow> error + dataframe" where
  "type_coercion eng d = and_then (cast_numeric eng d) (cast_date eng)"

definition rename_drop :: "engine \<Rightarrow> dataframe \<Rightarrow> error + dataframe" where
  "rename_drop eng d = and_then (rename_column eng d) (drop_unnecessary eng)"

definition staged :: "engine \<Rightarrow> dataframe \<Rightarrow> error + state" where
  "staged eng d =
     and_then (dropDuplicates eng d) (\<lambda>d1.
     and_then (missing_values eng d1) (\<lambda>d2.
     and_then (normalization eng d2) (\<lambda>d3.
     and_then (quantile_estimation d3) (\<lambda>(qs, lo, hi).
     and_then (clamp lo hi d3) (\<lambda>d4.
     and_then (type_coercion eng d4) (\<lambda>d5.
     and_then (rename_drop eng d5) (\<lambda>d6.
     and_then (repartition eng 10 d6) (\<lambda>d7.
     and_then (show_rows eng 10 d7) (\<lambda>u.
     and_then (write_csv eng output_path d7) (\<lambda>u'.
       Inr \<lparr>df = d7, quantiles = Some qs, lower_bound = Some lo, upper_bound = Some hi,
            written = Some (output_path, d7)\<rparr>))))))))))"

subsection \<open>Two engines for the examples\<close>

text \<open>
  \<open>idle\<close>: every collaborator is the identity and never raises.
\<close>

definition idle :: engine where
  "idle =
     \<lparr>dropDuplicates = Inr, dropna = (\<lambda>_. Inr), fillna = (\<lambda>_. Inr),
      regexp_replace = (\<lambda>_ _ x. x), lower = (\<lambda>x. x), trim = (\<lambda>x. x), cast = (\<lambda>_ _ v. v),
      withColumnRenamed = (\<lambda>_ _. Inr), drop_columns = (\<lambda>_. Inr), repartition = (\<lambda>_. Inr),
      show_rows = (\<lambda>_ _. Inr ()), write_csv = (\<lambda>_ _. Inr ())\<rparr>"

text \<open>
  \<open>sample_engine\<close>: the data frame operations as Spark documents them, up to the placement
  of rows in partitions. \<open>dropna\<close> raises when the data frame lacks a column of the subset
  and drops the rows with a null in one; \<open>dropDuplicates\<close> keeps one of equal rows;
  renaming and dropping a column the frame does not have do nothing; \<open>repartition(n)\<close>
  yields \<open>n\<close> partitions with the same rows. The implicit numeric casts are the explicit
  ones. The string functions and \<open>fillna\<close> are the identity: the example below is a data
  set whose text is already clean, lower case and trimmed, and whose filled columns hold no
  null.
\<close>

definition sample_dropna :: "string list \<Rightarrow> dataframe \<Rightarrow> error + dataframe" where
  "sample_dropna cols d =
     (if list_all (\<lambda>c. map_of (schema d) c \<noteq> None) cols
      then Inr (d\<lparr>partitions :=
                   map (filter (\<lambda>r. list_all (\<lambda>c. cell r c \<noteq> Null) cols)) (partitions d)\<rparr>)
      else Inl AnalysisException)"

definition sample_rename :: "string \<Rightarrow> string \<Rightarrow> dataframe \<Rightarrow> error + dataframe" where
  "sample_rename old new d =
     Inr \<lparr>schema = map (\<lambda>(k, t). (if k = old then new else k, t)) (schema d),
          partitions =
            map (map (map (\<lambda>(k, v). (if k = old then new else k, v)))) (partitions d)\<rparr>"

definition sample_drop :: "string list \<Rightarrow> dataframe \<Rightarrow> error + dataframe" where
  "sample_drop cs d =
     Inr \<lparr>schema = filter (\<lambda>(k, t). k \<notin> set cs) (schema d),
          partitions = map (map (filter (\<lambda>(k, v). k \<notin> set cs))) (partitions d)\<rparr>"

definition sample_engine :: engine where
  "sample_engine =
     \<lparr>dropDuplicates = (\<lambda>d. Inr (d\<lparr>partitions := [remdups (concat (partitions d))]\<rparr>)),
      dropna = sample_dropna,
      fillna = (\<lambda>_. Inr),
      regexp_replace = (\<lambda>_ _ x. x), lower = (\<lambda>x. x), trim = (\<lambda>x. x),
      cast = coerce,
      withColumnRenamed = sample_rename,
      drop_columns = sample_drop,
      repartition = (\<lambda>n d. Inr (d\<lparr>partitions := concat (partitions d) # replicate (n - 1) []\<rparr>)),
      show_rows = (\<lambda>_ _. Inr ()), write_csv = (\<lambda>_ _. Inr ())\<rparr>"

text \<open>
  The capping transform as a function on one cell: the value the expression of lines 50 to
  53 computes on a row whose \<open>numeric_column\<close>, of type \<open>t\<close>, holds \<open>v\<close>.
\<close>

definition capping :: "dtype \<Rightarrow> real \<Rightarrow> real \<Rightarrow> val \<Rightarrow> val" where
  "capping t lo hi v =
     compute (numeric_column_capped lo hi) [(''numeric_column'', t)] [(''numeric_column'', v)]"

subsection \<open>What a sketch stands for\<close>

text \<open>
  A sketch stands for the sorted list of the values it has taken in, each value repeated
  as often as its weight says. The sketches built by \<open>insert_value\<close> and \<open>merge\<close> list
  their values in strictly ascending order with positive weights.
\<close>

definition expand :: "sketch \<Rightarrow> real list" where
  "expand s = concat (map (\<lambda>(v, w). replicate w v) s)"

definition positive_weights :: "sketch \<Rightarrow> bool" where
  "positive_weights s = (\<forall>(v, w) \<in> set s. 0 < w)"

definition ascending :: "sketch \<Rightarrow> bool" where
  "ascending s = sorted_wrt (<) (map fst s)"

definition well_formed :: "sketch \<Rightarrow> bool" where
  "well_formed s = (ascending s \<and> positive_weights s)"

subsection \<open>Example data\<close>

definition example_rows :: dataframe where
  "example_rows =
     \<lparr>schema = [(''text_column'', StringType), (''categorical_column'', StringType),
                (''numeric_column'', DoubleType), (''date_column'', StringType)],
      partitions =
        [[[(''text_column'', Str ''a''), (''categorical_column'', Str ''yes''),
           (''numeric_column'', Num 1), (''date_column'', Null)],
          [(''text_column'', Str ''b''), (''categorical_column'', Str ''no''),
           (''numeric_column'', Num 5), (''date_column'', Null)]],
         [[(''text_column'', Str ''c''), (''categorical_column'', Null),
           (''numeric_column'', Num 3), (''date_column'', Null)],
          [(''text_column'', Str ''d''), (''categorical_column'', Str ''yes''),
           (''numeric_column'', Null), (''date_column'', Null)]]]\<rparr>"

definition example_same :: dataframe where
  "example_same =
     \<lparr>schema = [(''numeric_column'', IntegerType)],
      partitions = [[[(''numeric_column'', Num 4)]],
                    [[(''numeric_column'', Num 4)], [(''numeric_column'', Null)]]]\<rparr>"

text \<open>
  A data set as line 13 may load it: it has every column the script reads, no duplicate
  row, no null outside \<open>date_column\<close> (a column of nulls only is read as a string column),
  clean lower-case text, and none of the columns that lines 60 and 63 rename and drop.
\<close>

definition example_csv :: dataframe where
  "example_csv =
     \<lparr>schema = [(''important_column1'', StringType), (''important_column2'', StringType),
                (''column1'', StringType), (''column2'', IntegerType), (''column3'', StringType),
                (''text_column'', StringType), (''categorical_column'', StringType),
                (''numeric_column'', DoubleType), (''date_column'', StringType)],
      partitions =
        [[[(''important_column1'', Str ''a''), (''important_column2'', Str ''b''),
           (''column1'', Str ''c''), (''column2'', Num 1), (''column3'', Str ''d''),
           (''text_column'', Str ''one''), (''categorical_column'', Str ''yes''),
           (''numeric_column'', Num 1), (''date_column'', Null)],
          [(''important_column1'', Str ''a''), (''important_column2'', Str ''b''),
           (''column1'', Str ''c''), (''column2'', Num 2), (''column3'', Str ''d''),
           (''text_column'', Str ''two''), (''categorical_column'', Str ''no''),
           (''numeric_column'', Num 5), (''date_column'', Null)]],
         [[(''important_column1'', Str ''a''), (''important_column2'', Str ''b''),
           (''column1'', Str ''c''), (''column2'', Num 3), (''column3'', Str ''d''),
           (''text_column'', Str ''three''), (''categorical_column'', Str ''maybe''),
           (''numeric_column'', Num 3), (''date_column'', Null)]]]\<rparr>"

text \<open>What the script makes of it under \<open>sample_engine\<close>, in ten partitions.\<close>

definition example_csv_cleaned :: dataframe where
  "example_csv_cleaned =
     \<lparr>schema = [(''important_column1'', StringType), (''important_column2'', StringType),
                (''column1'', StringType), (''column2'', IntegerType), (''column3'', StringType),
                (''text_column'', StringType), (''categorical_column'', StringType),
                (''numeric_column'', DoubleType), (''date_column'', DateType),
                (''cleaned_text'', StringType), (''numeric_column_capped'', DoubleType)],
      partitions =
        [[[(''important_column1'', Str ''a''), (''important_column2'', Str ''b''),
           (''column1'', Str ''c''), (''column2'', Num 1), (''column3'', Str ''d''),
           (''text_column'', Str ''one''), (''categorical_column'', Str ''yes''),
           (''numeric_column'', Num 1), (''date_column'', Null),
           (''cleaned_text'', Str ''one''), (''numeric_column_capped'', Num 1)],
          [(''important_column1'', Str ''a''), (''important_column2'', Str ''b''),
           (''column1'', Str ''c''), (''column2'', Num 2), (''column3'', Str ''d''),
           (''text_column'', Str ''two''), (''categorical_column'', Str ''no''),
           (''numeric_column'', Num 5), (''date_column'', Null),
           (''cleaned_text'', Str ''two''), (''numeric_column_capped'', Num 5)],
          [(''important_column1'', Str ''a''), (''important_column2'', Str ''b''),
           (''column1'', Str ''c''), (''column2'', Num 3), (''column3'', Str ''d''),
           (''text_column'', Str ''three''), (''categorical_column'', Str ''maybe''),
           (''numeric_column'', Num 3), (''date_column'', Null),
           (''cleaned_text'', Str ''three''), (''numeric_column_capped'', Num 3)]],
         [], [], [], [], [], [], [], [], []]\<rparr>"

text \<open>
  Data frames as they can stand in \<open>df\<close> when line 46 is reached. In the first no row is
  left (all were dropped at line 20) and \<open>numeric_column\<close> is a \<open>double\<close> column. In the
  second \<open>numeric_column\<close> holds only nulls, and is a string column for that. In the third
  the data set came with a string column named \<open>numeric_column_capped\<close>.
\<close>

definition example_no_rows :: dataframe where
  "example_no_rows =
     \<lparr>schema = [(''important_column1'', StringType), (''important_column2'', StringType),
                (''text_column'', StringType), (''categorical_column'', StringType),
                (''numeric_column'', DoubleType), (''date_column'', StringType),
                (''cleaned_text'', StringType)],
      partitions = [[]]\<rparr>"

definition example_only_nulls :: dataframe where
  "example_only_nulls =
     \<lparr>schema = [(''important_column1'', StringType), (''important_column2'', StringType),
                (''text_column'', StringType), (''categorical_column'', StringType),
                (''numeric_column'', StringType), (''date_column'', StringType),
                (''cleaned_text'', StringType)],
      partitions =
        [[[(''important_column1'', Str ''a''), (''important_column2'', Str ''b''),
           (''text_column'', Str ''one''), (''categorical_column'', Str ''yes''),
           (''numeric_column'', Null), (''date_column'', Null),
           (''cleaned_text'', Str ''one'')]]]\<rparr>"



section \<open>Properties of the script\<close>

subsection \<open>The cast of a 64-bit integer to a double\<close>

lemma bitlen_lt_2_53:
  assumes "0 \<le> a" "a < 2 ^ 53"
  shows "bitlen a \<le> 53"
proof (cases "a = 0")
  case True
  then show ?thesis by simp
next
  case False
  with assms have "0 < a" by simp
  from bitlen_bounds [OF this] have "2 ^ nat (bitlen a - 1) \<le> a" by simp
  with assms(2) have "(2::int) ^ nat (bitlen a - 1) < 2 ^ 53" by linarith
  then have "nat (bitlen a - 1) < 53" by (rule power_less_imp_less_exp [rotated]) simp
  then show ?thesis by linarith
qed

lemma long_to_double_exact:
  assumes "\<bar>n\<bar> < 2 ^ 53"
  shows "long_to_double n = of_int n"
proof -
  have "bitlen \<bar>n\<bar> \<le> 53" using assms by (intro bitlen_lt_2_53) simp_all
  then have "nat (bitlen \<bar>n\<bar> - 53) = 0" by simp
  then show ?thesis by (simp add: long_to_double_def Let_def)
qed

lemma bitlen_example: "bitlen 9007199254740995 = 54"
  by code_simp

lemma long_to_double_example: "long_to_double 9007199254740995 = 9007199254740996"
  by (simp add: long_to_double_def Let_def bitlen_example)

lemma coerce_Num:
  "coerce from to (Num x) =
     (if from = LongType \<and> to = DoubleType then Num (long_to_double \<lfloor>x\<rfloor>) else Num x)"
  by (simp add: coerce_def)

lemma coerce_other [simp]:
  "coerce from to Null = Null" "coerce from to (Str x) = Str x"
  "coerce from to (Bool b) = Bool b" "coerce from to (Date i) = Date i"
  "coerce from to (Timestamp i) = Timestamp i"
  by (simp_all add: coerce_def)

subsection \<open>The capping expression\<close>

lemma coerce_not_double: "to \<noteq> DoubleType \<Longrightarrow> coerce from to v = v"
  by (cases v) (simp_all add: coerce_def)

lemma coerce_not_long: "from \<noteq> LongType \<Longrightarrow> coerce from to v = v"
  by (cases v) (simp_all add: coerce_def)

lemma wider_double: "numeric t \<Longrightarrow> wider t DoubleType = DoubleType"
  "numeric t \<Longrightarrow> wider DoubleType t = DoubleType"
  by (auto simp: wider_def numeric_def)

lemma wider_string [simp]: "wider StringType t = StringType" "wider t StringType = StringType"
  by (auto simp: wider_def numeric_def)

lemma wider_not_numeric:
  "\<not> numeric t \<Longrightarrow> wider t DoubleType \<noteq> DoubleType \<or> t \<noteq> LongType"
  by (auto simp: numeric_def)

lemma coerce_wider_double: "coerce t (wider t DoubleType) v = coerce t DoubleType v"
proof (cases "numeric t")
  case True
  then show ?thesis by (simp add: wider_double)
next
  case False
  then have "t \<noteq> LongType" by (auto simp: numeric_def)
  then show ?thesis by (simp add: coerce_not_long)
qed

lemma coerce_wider_double2:
  "coerce t (wider DoubleType (wider DoubleType t)) v = coerce t DoubleType v"
proof (cases "numeric t")
  case True
  then show ?thesis by (simp add: wider_double) (simp add: wider_def)
next
  case False
  then have "t \<noteq> LongType" by (auto simp: numeric_def)
  then show ?thesis by (simp add: coerce_not_long)
qed

lemma coerce_from_double [simp]: "coerce DoubleType to v = v"
  by (simp add: coerce_not_long)

lemma compute_capped:
  "compute (numeric_column_capped lo hi) s r =
     (let v = (case map_of s ''numeric_column'' of
                 None \<Rightarrow> cell r ''numeric_column''
               | Some t \<Rightarrow> coerce t DoubleType (cell r ''numeric_column''))
      in if sql_lt v (Num lo) = Bool True then Num lo
         else if sql_lt (Num hi) v = Bool True then Num hi
         else v)"
  by (cases "map_of s ''numeric_column''")
     (simp_all add: numeric_column_capped_def otherwise_def when_more_def when_col_def
       col_lt_def col_gt_def comparison_def col_def lit_float_def coerced_def static_type_def
       common_type_def Let_def coerce_wider_double coerce_wider_double2)

lemma capping_eq:
  "capping t lo hi v =
     (if sql_lt (coerce t DoubleType v) (Num lo) = Bool True then Num lo
      else if sql_lt (Num hi) (coerce t DoubleType v) = Bool True then Num hi
      else coerce t DoubleType v)"
  by (simp add: capping_def compute_capped cell_def Let_def)


text \<open>
  In a \<open>bigint\<close> column the cell is converted to a double, the type of the two bounds,
  before it is compared and returned. 9007199254740995 lies between the bounds 0 and
  \<open>2 ^ 60\<close> and comes out as 9007199254740996.
\<close>

theorem capped_value_counterexample:
  "compute (numeric_column_capped 0 (2 ^ 60)) [(''numeric_column'', LongType)]
     [(''numeric_column'', Num 9007199254740995)] = Num 9007199254740996"
  by (simp add: compute_capped cell_def Let_def coerce_Num long_to_double_example)

text \<open>
  Claim C3, amended. The capping transform is a function of the cell, the type of its column
  and the two bounds alone, defined for every numeric input: on a row whose
  \<open>numeric_column\<close>, of type \<open>t\<close>, holds the number \<open>x\<close>, the expression of lines 50 to 53
  yields \<open>lower\<close> when \<open>x' < lower\<close>, otherwise \<open>upper\<close> when \<open>x' > upper\<close>, otherwise
  \<open>x'\<close>, where \<open>x'\<close> is \<open>x\<close> converted to a double. The conditions are tried in this order,
  as \<open>when\<close> does. \<open>x'\<close> is \<open>x\<close> itself in every column that is not a \<open>bigint\<close> column, and
  for every integer of magnitude below \<open>2 ^ 53\<close>.
\<close>

theorem capped_value:
  assumes "cell r ''numeric_column'' = Num x" and "map_of s ''numeric_column'' = Some t"
  shows "compute (numeric_column_capped lo hi) s r =
           Num (let x' = (if t = LongType then long_to_double \<lfloor>x\<rfloor> else x)
                in if x' < lo then lo else if hi < x' then hi else x') \<and>
         (t \<noteq> LongType \<longrightarrow>
            compute (numeric_column_capped lo hi) s r =
              Num (if x < lo then lo else if hi < x then hi else x)) \<and>
         (\<forall>n. x = of_int n \<and> \<bar>n\<bar> < 2 ^ 53 \<longrightarrow>
            compute (numeric_column_capped lo hi) s r =
              Num (if x < lo then lo else if hi < x then hi else x))"
proof -
  have a: "compute (numeric_column_capped lo hi) s r =
           Num (let x' = (if t = LongType then long_to_double \<lfloor>x\<rfloor> else x)
                in if x' < lo then lo else if hi < x' then hi else x')"
    using assms by (simp add: compute_capped Let_def coerce_Num)
  have "long_to_double \<lfloor>x\<rfloor> = x" if "x = of_int n" "\<bar>n\<bar> < 2 ^ 53" for n
    using that by (simp add: long_to_double_exact)
  with a show ?thesis by (auto simp: Let_def)
qed

theorem capped_value_witness:
  "cell [(''numeric_column'', Num 7)] ''numeric_column'' = Num 7 \<and>
   map_of [(''numeric_column'', LongType)] ''numeric_column'' = Some LongType \<and>
   compute (numeric_column_capped 1 5) [(''numeric_column'', LongType)]
     [(''numeric_column'', Num 7)] = Num 5"
proof -
  have c: "cell [(''numeric_column'', Num 7)] ''numeric_column'' = Num 7"
    by (simp add: cell_def)
  have l: "map_of [(''numeric_column'', LongType)] ''numeric_column'' = Some LongType"
    by simp
  have e: "long_to_double 7 = 7" using long_to_double_exact [of 7] by simp
  from capped_value [OF c l, of 1 5, THEN conjunct1] c l show ?thesis
    by (simp add: e)
qed

lemma capping_idempotent_ordered:
  assumes "lo \<le> hi"
  shows "capping DoubleType lo hi (capping t lo hi v) = capping t lo hi v"
proof (cases "coerce t DoubleType v")
  case (Num y)
  with assms show ?thesis by (auto simp: capping_eq)
qed (auto simp: capping_eq)

subsection \<open>The categorical mapping\<close>

lemma coerced_same:
  "target \<noteq> Some DoubleType \<Longrightarrow> coerced c target s r = compute c s r"
  by (cases target; cases "static_type c s") (simp_all add: coerced_def coerce_not_double)

lemma common_type_string: "common_type a (Some StringType) \<noteq> Some DoubleType"
  by (cases a) (simp_all add: common_type_def)

lemma compute_col_eq_string:
  "compute (col_eq c (lit_str x)) s r = sql_eq (compute c s r) (Str x)"
proof -
  have "static_type (lit_str x) s = Some StringType"
    by (simp add: static_type_def lit_str_def)
  then show ?thesis
    by (simp add: col_eq_def comparison_def coerced_same common_type_string)
       (simp add: lit_str_def)
qed

lemma case_type_string:
  assumes "case_type ((c, lit_str x) # bs) e s = Inr t"
  shows "t = StringType"
  using assms by (auto simp: lit_str_def split: sum.splits)

lemma categorical_type:
  "(case analyse categorical_column s of Inl err \<Rightarrow> None | Inr t \<Rightarrow> Some t) \<noteq> Some DoubleType"
proof (cases "analyse categorical_column s")
  case (Inl e)
  then show ?thesis by simp
next
  case (Inr t)
  then have "t = StringType"
    unfolding categorical_column_def otherwise_def when_more_def when_col_def
    by (simp only: column.simps append.simps) (erule case_type_string)
  with Inr show ?thesis by simp
qed

lemma compute_categorical:
  "compute categorical_column s r = cell r ''categorical_column''"
proof -
  let ?T = "case analyse categorical_column s of Inl err \<Rightarrow> None | Inr t \<Rightarrow> Some t"
  let ?v = "cell r ''categorical_column''"
  have T: "?T \<noteq> Some DoubleType" by (rule categorical_type)
  have "compute categorical_column s r =
      case_value ?T
        [(col_eq (col ''categorical_column'') (lit_str ''yes''), lit_str ''yes''),
         (col_eq (col ''categorical_column'') (lit_str ''no''), lit_str ''no'')]
        (col ''categorical_column'') s r"
    by (simp add: categorical_column_def otherwise_def when_more_def when_col_def)
  also have "\<dots> = (if sql_eq ?v (Str ''yes'') = Bool True then Str ''yes''
                   else if sql_eq ?v (Str ''no'') = Bool True then Str ''no'' else ?v)"
    by (simp add: compute_col_eq_string coerced_same [OF T]) (simp add: col_def lit_str_def)
  also have "\<dots> = ?v" by (cases ?v) simp_all
  finally show ?thesis .
qed


lemma cell_update_same: "cell (AList.update name v r) name = v"
  by (simp add: cell_def update_conv')


text \<open>
  Claim C10. The mapping of lines 40 to 43 (\<open>"yes"\<close> to \<open>"yes"\<close>, \<open>"no"\<close> to \<open>"no"\<close>, any
  other value kept) returns the cell of \<open>categorical_column\<close> unchanged on every row, NULL
  included. So the statement of line 40 returns the data frame it is given whenever that
  frame comes from a \<open>withColumn\<close> of a string function, as the one of line 39 does: the
  result of the categorical stage is the result of the \<open>lower(trim(...))\<close> step.
\<close>

theorem categorical_mapping_identity:
  "compute categorical_column sch r = cell r ''categorical_column'' \<and>
   (assign_df (withColumn ''categorical_column'' (string_function eng f c)) s = Inr s1 \<longrightarrow>
      assign_df (withColumn ''categorical_column'' categorical_column) s1 = Inr s1)"
proof -
  have "assign_df (withColumn ''categorical_column'' categorical_column) s1 = Inr s1"
    if h: "assign_df (withColumn ''categorical_column'' (string_function eng f c)) s = Inr s1"
  proof -
    from h obtain d1
      where w: "withColumn ''categorical_column'' (string_function eng f c) (df s) = Inr d1"
      and s1: "s1 = s\<lparr>df := d1\<rparr>"
      by (auto simp: assign_df_def split: sum.splits)
    from w have sch: "schema d1 = AList.update ''categorical_column'' StringType (schema (df s))"
      and rows: "partitions d1 =
         map (map (\<lambda>r. AList.update ''categorical_column''
                (compute (string_function eng f c) (schema (df s)) r) r))
           (partitions (df s))"
      by (auto simp: withColumn_def string_function_def split: sum.splits)
    have ty: "analyse categorical_column (schema d1) = Inr StringType"
      by (simp add: sch categorical_column_def otherwise_def when_more_def when_col_def
          col_eq_def comparison_def col_def lit_str_def update_conv')
    have "withColumn ''categorical_column'' categorical_column d1 = Inr d1"
      by (simp add: withColumn_def ty compute_categorical) (simp add: sch rows o_def cell_update_same)
    then show ?thesis by (simp add: assign_df_def s1)
  qed
  then show ?thesis by (simp add: compute_categorical)
qed

theorem categorical_mapping_identity_witness:
  "assign_df (withColumn ''categorical_column''
      (string_function idle (lower idle)
         (string_function idle (trim idle) (col ''categorical_column''))))
      (start example_rows) = Inr (start example_rows) \<and>
   assign_df (withColumn ''categorical_column'' categorical_column) (start example_rows) =
     Inr (start example_rows)"
proof -
  have h: "assign_df (withColumn ''categorical_column''
      (string_function idle (lower idle)
         (string_function idle (trim idle) (col ''categorical_column''))))
      (start example_rows) = Inr (start example_rows)"
    by (simp add: assign_df_def withColumn_def string_function_def col_def idle_def start_def
        example_rows_def cell_def static_type_def)
  from categorical_mapping_identity [of "[]" "[]" idle "lower idle"
      "string_function idle (trim idle) (col ''categorical_column'')" "start example_rows"
      "start example_rows"] h
  show ?thesis by simp
qed

subsection \<open>The frame of the capping stage\<close>








subsection \<open>The order of the stages\<close>

lemma run_lines: "prefix (fst (run p s)) (map fst p)"
proof (induction p arbitrary: s)
  case Nil
  show ?case by simp
next
  case (Cons a p)
  obtain n f where a: "a = (n, f)" by (cases a)
  show ?case
  proof (cases "f s")
    case (Inl e)
    then show ?thesis by (simp add: a)
  next
    case (Inr s1)
    with Cons [of s1] show ?thesis by (cases "run p s1") (simp add: a)
  qed
qed

lemma run_all_lines: "snd (run p s) = Inr s' \<Longrightarrow> fst (run p s) = map fst p"
proof (induction p arbitrary: s)
  case Nil
  show ?case by simp
next
  case (Cons a p)
  obtain n f where a: "a = (n, f)" by (cases a)
  show ?case
  proof (cases "f s")
    case (Inl e)
    with Cons.prems show ?thesis by (simp add: a)
  next
    case (Inr s1)
    with Cons.prems Cons.IH [of s1] show ?thesis by (cases "run p s1") (simp add: a)
  qed
qed

lemma script_lines:
  "map fst (script eng) =
     [16, 20, 23, 31, 32, 35, 39, 40, 46, 47, 48, 50, 56, 57, 60, 63, 66, 69, 72]"
  by (simp add: script_def)

lemma stages_of_all_lines:
  "stages_run [16, 20, 23, 31, 32, 35, 39, 40, 46, 47, 48, 50, 56, 57, 60, 63, 66, 69, 72]
     = fixed_order"
  by (simp add: stages_run_def stage_of_def fixed_order_def)

lemma stages_of_prefix:
  assumes "prefix ls [16, 20, 23, 31, 32, 35, 39, 40, 46, 47, 48, 50, 56, 57, 60, 63, 66, 69, 72]"
  shows "prefix (stages_run ls) fixed_order"
  using assms
  by (auto simp: prefix_Cons stages_run_def stage_of_def fixed_order_def)

text \<open>What a run returns, statement by statement.\<close>

lemma and_then_Inr: "and_then (Inr a) f = f a"
  by (simp add: and_then_def)

lemma and_then_Inl: "and_then (Inl e) f = Inl e"
  by (simp add: and_then_def)

lemma and_then_assoc: "and_then (and_then x f) g = and_then x (\<lambda>a. and_then (f a) g)"
  by (cases x) (simp_all add: and_then_def)

lemma snd_run_Nil: "snd (run [] s) = Inr s"
  by simp

lemma snd_run_Cons: "snd (run ((n, f) # rest) s) = and_then (f s) (\<lambda>s'. snd (run rest s'))"
  by (cases "f s") (simp_all add: and_then_def split: prod.splits)

lemma and_then_assign_df:
  "and_then (assign_df f s) g = and_then (f (df s)) (\<lambda>d. g (s\<lparr>df := d\<rparr>))"
  by (cases "f (df s)") (simp_all add: and_then_def assign_df_def)

lemma and_then_show_df:
  "and_then (show_df eng n s) g = and_then (show_rows eng n (df s)) (\<lambda>u. g s)"
  by (cases "show_rows eng n (df s)") (simp_all add: and_then_def show_df_def)

lemma and_then_write_df:
  "and_then (write_df eng p s) g =
     and_then (write_csv eng p (df s)) (\<lambda>u. g (s\<lparr>written := Some (p, df s)\<rparr>))"
  by (cases "write_csv eng p (df s)") (simp_all add: and_then_def write_df_def)

lemma and_then_assign_quantiles:
  "and_then (assign_quantiles s) g =
     and_then (approxQuantile (df s) ''numeric_column'' [0.05, 0.95] relativeError_passed)
       (\<lambda>qs. g (s\<lparr>quantiles := Some qs\<rparr>))"
  by (cases "approxQuantile (df s) ''numeric_column'' [0.05, 0.95] relativeError_passed")
    (simp_all add: and_then_def assign_quantiles_def)

lemma and_then_assign_lower_bound:
  "quantiles s = Some qs \<Longrightarrow>
   and_then (assign_lower_bound s) g =
     and_then (getitem qs 0) (\<lambda>x. g (s\<lparr>lower_bound := Some x\<rparr>))"
  by (cases "getitem qs 0") (simp_all add: and_then_def assign_lower_bound_def)

lemma and_then_assign_upper_bound:
  "quantiles s = Some qs \<Longrightarrow>
   and_then (assign_upper_bound s) g =
     and_then (getitem qs 1) (\<lambda>x. g (s\<lparr>upper_bound := Some x\<rparr>))"
  by (cases "getitem qs 1") (simp_all add: and_then_def assign_upper_bound_def)

lemma and_then_cap_numeric_column:
  "lower_bound s = Some lo \<Longrightarrow> upper_bound s = Some hi \<Longrightarrow>
   and_then (cap_numeric_column s) g = and_then (clamp lo hi (df s)) (\<lambda>d. g (s\<lparr>df := d\<rparr>))"
  by (simp add: cap_numeric_column_def and_then_assign_df)

lemma run_script_staged: "snd (run (script eng) (start d)) = staged eng d"
  unfolding script_def staged_def missing_values_def normalization_def quantile_estimation_def
    type_coercion_def rename_drop_def start_def
  by (simp add: snd_run_Nil snd_run_Cons and_then_assign_df and_then_show_df and_then_write_df
      and_then_assign_quantiles and_then_assign_lower_bound and_then_assign_upper_bound
      and_then_cap_numeric_column and_then_assoc and_then_Inr del: run.simps)

text \<open>
  Claim C8. Whatever the collaborators do and whatever the data, what the script returns,
  the final data frame, the bounds and what is written, or the exception, is what the
  composition \<open>staged\<close> of the stages in the fixed order returns: each stage works on the
  data set the stage before it produced, and the data set written is the one repartitioned.
  The statements run are an initial part of the file, so the stages that run are an initial
  part of the fixed order: deduplication, missing-value handling, normalization, quantile
  estimation, clamp, type coercion, rename/drop, repartition, write. When the run succeeds
  all of them ran, each line once, in the order of the file.
\<close>

theorem stages_in_fixed_order:
  "snd (pipeline eng d) = staged eng d \<and>
   prefix (stages_run (fst (pipeline eng d))) fixed_order \<and>
   (\<forall>s. snd (pipeline eng d) = Inr s \<longrightarrow>
      stages_run (fst (pipeline eng d)) = fixed_order \<and>
      fst (pipeline eng d) =
        [16, 20, 23, 31, 32, 35, 39, 40, 46, 47, 48, 50, 56, 57, 60, 63, 66, 69, 72])"
proof -
  have "prefix (fst (pipeline eng d)) (map fst (script eng))"
    unfolding pipeline_def by (rule run_lines)
  then have a: "prefix (stages_run (fst (pipeline eng d))) fixed_order"
    unfolding script_lines by (rule stages_of_prefix)
  have b: "fst (pipeline eng d) = map fst (script eng)" if "snd (pipeline eng d) = Inr s" for s
    using that unfolding pipeline_def by (rule run_all_lines)
  have c: "snd (pipeline eng d) = staged eng d"
    unfolding pipeline_def by (rule run_script_staged)
  show ?thesis using a b c by (auto simp: script_lines stages_of_all_lines)
qed

lemma replicate_9: "replicate 9 x = [x, x, x, x, x, x, x, x, x]"
  by (simp add: eval_nat_numeral)

lemma staged_example:
  "staged sample_engine example_csv =
     Inr \<lparr>df = example_csv_cleaned, quantiles = Some [1, 5], lower_bound = Some 1,
          upper_bound = Some 5, written = Some (output_path, example_csv_cleaned)\<rparr>"
  by (simp add: staged_def missing_values_def normalization_def quantile_estimation_def
      type_coercion_def rename_drop_def and_then_def
      example_csv_def example_csv_cleaned_def sample_engine_def sample_dropna_def
      sample_rename_def sample_drop_def drop_missing_def fill_missing_def clean_text_def
      lowercase_text_def trim_text_def normalize_categorical_def standardize_categorical_def
      cast_numeric_def cast_date_def rename_column_def drop_unnecessary_def
      withColumn_def string_function_def col_def categorical_column_def otherwise_def
      when_more_def when_col_def col_eq_def comparison_def lit_str_def wider_def
      getitem_def approxQuantile_def numeric_def
      relativeError_passed_def global_sketch_def partition_sketch_def empty_sketch_def
      merge_def query_def total_weight_def cell_def clamp_def
      numeric_column_capped_def col_lt_def col_gt_def lit_float_def cast_column_def
      type_named_def coerced_def static_type_def common_type_def coerce_def replicate_9)

theorem stages_in_fixed_order_witness:
  "pipeline sample_engine example_csv =
     ([16, 20, 23, 31, 32, 35, 39, 40, 46, 47, 48, 50, 56, 57, 60, 63, 66, 69, 72],
      Inr \<lparr>df = example_csv_cleaned, quantiles = Some [1, 5], lower_bound = Some 1,
           upper_bound = Some 5, written = Some (output_path, example_csv_cleaned)\<rparr>) \<and>
   stages_run (fst (pipeline sample_engine example_csv)) = fixed_order"
proof -
  note t = stages_in_fixed_order [of sample_engine example_csv]
  have r: "snd (pipeline sample_engine example_csv) =
      Inr \<lparr>df = example_csv_cleaned, quantiles = Some [1, 5], lower_bound = Some 1,
           upper_bound = Some 5, written = Some (output_path, example_csv_cleaned)\<rparr>"
    using t [THEN conjunct1] by (simp only: staged_example)
  from t [THEN conjunct2, THEN conjunct2] r
  have l: "stages_run (fst (pipeline sample_engine example_csv)) = fixed_order"
    and f: "fst (pipeline sample_engine example_csv) =
        [16, 20, 23, 31, 32, 35, 39, 40, 46, 47, 48, 50, 56, 57, 60, 63, 66, 69, 72]"
    by blast+
  from f r have "pipeline sample_engine example_csv =
     ([16, 20, 23, 31, 32, 35, 39, 40, 46, 47, 48, 50, 56, 57, 60, 63, 66, 69, 72],
      Inr \<lparr>df = example_csv_cleaned, quantiles = Some [1, 5], lower_bound = Some 1,
           upper_bound = Some 5, written = Some (output_path, example_csv_cleaned)\<rparr>)"
    by (simp only: prod_eq_iff fst_conv snd_conv simp_thms)
  with l show ?thesis by (rule conjI [rotated])
qed

subsection \<open>Invariants of the sketch\<close>

lemma expand_simps [simp]:
  "expand [] = []" "expand ((v, w) # s) = replicate w v @ expand s"
  by (simp_all add: expand_def)

lemma positive_weights_simps [simp]:
  "positive_weights []" "positive_weights ((v, w) # s) = (0 < w \<and> positive_weights s)"
  by (simp_all add: positive_weights_def)

lemma set_expand: "set (expand s) \<subseteq> set (map fst s)"
  by (induction s) (auto simp: expand_def)

lemma length_expand: "length (expand s) = total_weight s"
  by (induction s) (auto simp: total_weight_def)

lemma values_insert: "set (map fst (insert_value x s)) = insert x (set (map fst s))"
  by (induction s) force+

lemma mset_insert: "mset (expand (insert_value x s)) = add_mset x (mset (expand s))"
  by (induction s) auto

lemma ascending_insert: "ascending s \<Longrightarrow> ascending (insert_value x s)"
proof (induction s)
  case Nil
  show ?case by (simp add: ascending_def)
next
  case (Cons a s)
  obtain v w where a: "a = (v, w)" by (cases a)
  from Cons.prems have "ascending s" by (simp add: ascending_def)
  then have "ascending (insert_value x s)" by (rule Cons.IH)
  moreover have "\<forall>u \<in> set (map fst (insert_value x s)). v < u" if "v < x"
    unfolding values_insert using that Cons.prems by (auto simp: a ascending_def)
  ultimately show ?case
    using Cons.prems by (auto simp: a ascending_def)
qed

lemma positive_insert: "positive_weights s \<Longrightarrow> positive_weights (insert_value x s)"
  by (induction s) auto

lemma values_interleave: "set (map fst (interleave a b)) = set (map fst a) \<union> set (map fst b)"
  by (induction a b rule: interleave.induct) force+

lemma mset_interleave: "mset (expand (interleave a b)) = mset (expand a) + mset (expand b)"
  by (induction a b rule: interleave.induct) auto

lemma positive_interleave: "positive_weights a \<Longrightarrow> positive_weights b \<Longrightarrow> positive_weights (interleave a b)"
  by (induction a b rule: interleave.induct) auto

lemma sorted_interleave:
  "sorted (map fst a) \<Longrightarrow> sorted (map fst b) \<Longrightarrow> sorted (map fst (interleave a b))"
proof (induction a b rule: interleave.induct)
  case (3 v w a u z b)
  show ?case
  proof (cases "v \<le> u")
    case True
    with 3 have "sorted (map fst (interleave a ((u, z) # b)))" by simp
    moreover have "\<forall>y \<in> set (map fst (interleave a ((u, z) # b))). v \<le> y"
      unfolding values_interleave using 3(3,4) True by auto
    ultimately show ?thesis using True by simp
  next
    case False
    with 3 have "sorted (map fst (interleave ((v, w) # a) b))" by simp
    moreover have "\<forall>y \<in> set (map fst (interleave ((v, w) # a) b)). u \<le> y"
      unfolding values_interleave using 3(3,4) False by auto
    ultimately show ?thesis using False by simp
  qed
qed simp_all

lemma values_compress: "set (map fst (compress s)) = set (map fst s)"
  by (induction s rule: compress.induct) force+

lemma mset_compress: "mset (expand (compress s)) = mset (expand s)"
  by (induction s rule: compress.induct) (auto simp: replicate_add)

lemma positive_compress: "positive_weights s \<Longrightarrow> positive_weights (compress s)"
  by (induction s rule: compress.induct) auto

lemma ascending_compress: "sorted (map fst s) \<Longrightarrow> ascending (compress s)"
proof (induction s rule: compress.induct)
  case 1
  show ?case by (simp add: ascending_def)
next
  case (2 t)
  show ?case by (simp add: ascending_def)
next
  case (3 v w u z s)
  show ?case
  proof (cases "v = u")
    case True
    with 3 show ?thesis by simp
  next
    case False
    with 3 have "ascending (compress ((u, z) # s))" by simp
    moreover have "\<forall>y \<in> set (map fst (compress ((u, z) # s))). v < y"
      unfolding values_compress using "3.prems" False by auto
    ultimately show ?thesis using False by (simp add: ascending_def)
  qed
qed

lemma compress_ascending: "ascending s \<Longrightarrow> compress s = s"
  by (induction s rule: compress.induct) (auto simp: ascending_def)

lemma ascending_sorted: "ascending s \<Longrightarrow> sorted (map fst s)"
  unfolding ascending_def by (induction s) auto

lemma well_formed_merge: "well_formed a \<Longrightarrow> well_formed b \<Longrightarrow> well_formed (merge a b)"
  by (simp add: well_formed_def merge_def ascending_compress sorted_interleave ascending_sorted
      positive_compress positive_interleave)

lemma mset_merge: "mset (expand (merge a b)) = mset (expand a) + mset (expand b)"
  by (simp add: merge_def mset_compress mset_interleave)

lemma well_formed_empty: "well_formed empty_sketch"
  by (simp add: well_formed_def empty_sketch_def ascending_def)

lemma well_formed_fold_insert: "well_formed s \<Longrightarrow> well_formed (fold insert_value xs s)"
  by (induction xs arbitrary: s) (auto simp: well_formed_def ascending_insert positive_insert)

lemma mset_fold_insert: "mset (expand (fold insert_value xs s)) = mset xs + mset (expand s)"
  by (induction xs arbitrary: s) (auto simp: mset_insert)

lemma well_formed_partition_sketch: "well_formed (partition_sketch c rs)"
  by (simp add: partition_sketch_def well_formed_fold_insert well_formed_empty)

lemma mset_partition_sketch: "mset (expand (partition_sketch c rs)) = mset (scan c rs)"
  by (simp add: partition_sketch_def mset_fold_insert empty_sketch_def)

lemma well_formed_foldl_merge:
  "well_formed s \<Longrightarrow> \<forall>a \<in> set sks. well_formed a \<Longrightarrow> well_formed (foldl merge s sks)"
  by (induction sks arbitrary: s) (auto simp: well_formed_merge)

lemma mset_foldl_merge:
  "mset (expand (foldl merge s sks)) = mset (expand s) + mset (concat (map expand sks))"
  by (induction sks arbitrary: s) (auto simp: mset_merge)

lemma well_formed_global_sketch: "well_formed (global_sketch c ps)"
  by (simp add: global_sketch_def well_formed_foldl_merge well_formed_empty
      well_formed_partition_sketch)

lemma mset_concat_cong:
  "\<forall>x \<in> set xs. mset (f x) = mset (g x) \<Longrightarrow> mset (concat (map f xs)) = mset (concat (map g xs))"
  by (induction xs) auto

lemma mset_global_sketch:
  "mset (expand (global_sketch c ps)) = mset (concat (map (scan c) ps))"
proof -
  have "mset (concat (map expand (map (partition_sketch c) ps))) = mset (concat (map (scan c) ps))"
    unfolding map_map o_def by (rule mset_concat_cong) (simp add: mset_partition_sketch)
  then show ?thesis
    by (simp add: global_sketch_def mset_foldl_merge empty_sketch_def)
qed

lemma sorted_expand: "ascending s \<Longrightarrow> sorted (expand s)"
proof (induction s)
  case Nil
  show ?case by simp
next
  case (Cons a s)
  obtain v w where a: "a = (v, w)" by (cases a)
  from Cons.prems have "ascending s" and lt: "\<forall>u \<in> set (map fst s). v < u"
    by (auto simp: ascending_def a)
  then have "sorted (expand s)" using Cons.IH by simp
  moreover have "\<forall>u \<in> set (expand s). v \<le> u"
    using lt set_expand [of s] by fastforce
  ultimately show ?case by (auto simp: a sorted_append)
qed

lemma expand_global_sketch:
  "expand (global_sketch c ps) = sort (concat (map (scan c) ps))"
proof -
  have "well_formed (global_sketch c ps)" by (rule well_formed_global_sketch)
  then have "sorted (expand (global_sketch c ps))"
    by (simp add: well_formed_def sorted_expand)
  with mset_global_sketch [of c ps] show ?thesis
    by (metis properties_for_sort)
qed

subsection \<open>Queries against a sketch\<close>

lemma locate_expand:
  "positive_weights s \<Longrightarrow> s \<noteq> [] \<Longrightarrow> k \<le> length (expand s) \<Longrightarrow>
     locate k s = Some (expand s ! (k - 1))"
proof (induction s arbitrary: k)
  case Nil
  then show ?case by simp
next
  case (Cons a s)
  obtain v w where a: "a = (v, w)" by (cases a)
  from Cons.prems have w: "0 < w" and pos: "positive_weights s" by (simp_all add: a)
  show ?case
  proof (cases "k \<le> w")
    case True
    with w have "k - 1 < w" by simp
    then show ?thesis using True by (simp add: a nth_append)
  next
    case False
    with Cons.prems have len: "k - w \<le> length (expand s)" by (simp add: a)
    with False have ne: "s \<noteq> []" by auto
    have "locate (k - w) s = Some (expand s ! (k - w - 1))" by (rule Cons.IH [OF pos ne len])
    moreover have "\<not> k - 1 < w" and "k - 1 - w = k - w - 1" using False by arith+
    then have "(replicate w v @ expand s) ! (k - 1) = expand s ! (k - w - 1)"
      by (simp add: nth_append)
    ultimately show ?thesis using False by (simp add: a)
  qed
qed

lemma expand_eq_Nil: "positive_weights s \<Longrightarrow> (expand s = []) = (s = [])"
  by (cases s) auto

lemma position_le:
  assumes "0 \<le> r" "r \<le> 1"
  shows "nat \<lceil>r * real n\<rceil> \<le> n"
proof -
  have "r * real n \<le> 1 * real n" using assms by (intro mult_right_mono) simp_all
  then show ?thesis by simp
qed

lemma pred_less: "0 < n \<Longrightarrow> k \<le> n \<Longrightarrow> k - 1 < (n::nat)"
  by arith

lemma query_expand:
  assumes "positive_weights s" "s \<noteq> []" "0 \<le> r" "r \<le> 1"
  shows "query s r = Some (expand s ! (nat \<lceil>r * real (length (expand s))\<rceil> - 1))"
proof -
  have "expand s \<noteq> []" using assms(1,2) by (simp add: expand_eq_Nil)
  then have "total_weight s \<noteq> 0" by (simp add: length_expand [symmetric])
  moreover have "locate (nat \<lceil>r * real (length (expand s))\<rceil>) s =
      Some (expand s ! (nat \<lceil>r * real (length (expand s))\<rceil> - 1))"
    using assms by (intro locate_expand position_le)
  ultimately show ?thesis by (simp add: query_def length_expand)
qed

lemma those_map_Some: "\<forall>x \<in> set xs. f x = Some (g x) \<Longrightarrow> those (map f xs) = Some (map g xs)"
  by (induction xs) auto

lemma query_Nil: "query [] r = None"
  by (simp add: query_def total_weight_def)

lemma approxQuantile_exact:
  assumes "map_of (schema d) c = Some t" "numeric t" "\<forall>p \<in> set ps. 0 \<le> p \<and> p \<le> 1"
    and "column_values c d \<noteq> []"
  shows "approxQuantile d c ps 0 =
     Inr (map (\<lambda>p. sort (column_values c d) !
                     (nat \<lceil>p * real (length (column_values c d))\<rceil> - 1)) ps)"
proof -
  let ?g = "global_sketch c (partitions d)"
  have e: "expand ?g = sort (column_values c d)"
    by (simp add: expand_global_sketch column_values_def)
  have pos: "positive_weights ?g" using well_formed_global_sketch [of c "partitions d"]
    by (simp add: well_formed_def)
  have "expand ?g \<noteq> []" using assms(4) unfolding e by (metis length_sort length_0_conv)
  then have ne: "?g \<noteq> []" by auto
  have "\<forall>p \<in> set ps. query ?g p =
      Some (sort (column_values c d) ! (nat \<lceil>p * real (length (column_values c d))\<rceil> - 1))"
    using query_expand [OF pos ne] assms(3) by (simp add: e)
  then have "those (map (query ?g) ps) =
      Some (map (\<lambda>p. sort (column_values c d) !
                     (nat \<lceil>p * real (length (column_values c d))\<rceil> - 1)) ps)"
    by (rule those_map_Some)
  moreover have "\<not> (\<exists>p \<in> set ps. p < 0 \<or> 1 < p)" using assms(3) by auto
  ultimately show ?thesis using assms(1,2) by (simp add: approxQuantile_def)
qed

lemma approxQuantile_no_values:
  assumes "map_of (schema d) c = Some t" "numeric t" "\<forall>p \<in> set ps. 0 \<le> p \<and> p \<le> 1"
    and "column_values c d = []"
  shows "approxQuantile d c ps 0 = Inr []"
proof -
  let ?g = "global_sketch c (partitions d)"
  have "expand ?g = sort (column_values c d)"
    by (simp add: expand_global_sketch column_values_def)
  moreover have "positive_weights ?g" using well_formed_global_sketch [of c "partitions d"]
    by (simp add: well_formed_def)
  ultimately have g: "?g = []" using assms(4) by (simp add: expand_eq_Nil [symmetric])
  have "those (map (query ?g) ps) = None \<or> those (map (query ?g) ps) = Some []"
    unfolding g by (cases ps) (simp_all add: query_Nil)
  moreover have "\<not> (\<exists>p \<in> set ps. p < 0 \<or> 1 < p)" using assms(3) by auto
  ultimately show ?thesis using assms(1,2) by (auto simp: approxQuantile_def)
qed

lemma approxQuantile_Inr:
  assumes "approxQuantile d c ps e = Inr qs"
  shows "\<exists>t. map_of (schema d) c = Some t \<and> numeric t \<and> (\<forall>p \<in> set ps. 0 \<le> p \<and> p \<le> 1)"
  using assms by (auto simp: approxQuantile_def split: if_splits option.splits)

subsection \<open>Ranks in a sorted list\<close>

lemma below_sorted_nth:
  assumes "sorted ys" "i < length ys"
  shows "count_below (ys ! i) ys \<le> i"
proof -
  have ys: "ys = take i ys @ drop i ys" by simp
  have "\<forall>y \<in> set (drop i ys). ys ! i \<le> y"
    using assms by (auto simp: in_set_conv_nth sorted_iff_nth_mono)
  then have "filter (\<lambda>x. x < ys ! i) (drop i ys) = []"
    by (auto simp: filter_empty_conv)
  then have "count_below (ys ! i) ys = length (filter (\<lambda>x. x < ys ! i) (take i ys))"
    unfolding count_below_def by (subst ys) (simp del: append_take_drop_id)
  also have "\<dots> \<le> length (take i ys)" by (rule length_filter_le)
  also have "\<dots> \<le> i" by simp
  finally show ?thesis .
qed

lemma upto_sorted_nth:
  assumes "sorted ys" "i < length ys"
  shows "i < count_upto (ys ! i) ys"
proof -
  have ys: "ys = take (Suc i) ys @ drop (Suc i) ys" by simp
  have "\<forall>y \<in> set (take (Suc i) ys). y \<le> ys ! i"
    using assms by (auto simp: in_set_conv_nth sorted_iff_nth_mono)
  then have "filter (\<lambda>x. x \<le> ys ! i) (take (Suc i) ys) = take (Suc i) ys"
    by (auto simp: filter_id_conv)
  then have "length (take (Suc i) ys) \<le> count_upto (ys ! i) ys"
    unfolding count_upto_def by (subst (2) ys) (simp del: append_take_drop_id)
  then show ?thesis using assms(2) by simp
qed

lemma below_mset: "mset xs = mset ys \<Longrightarrow> count_below v xs = count_below v ys"
  unfolding count_below_def by (metis mset_filter size_mset)

lemma upto_mset: "mset xs = mset ys \<Longrightarrow> count_upto v xs = count_upto v ys"
  unfolding count_upto_def by (metis mset_filter size_mset)

lemma order_statistic_rank:
  assumes "xs \<noteq> []" "0 \<le> r" "r \<le> 1"
  defines "v \<equiv> sort xs ! (nat \<lceil>r * real (length xs)\<rceil> - 1)"
  shows "v \<in> set xs" and "real (count_below v xs) \<le> r * real (length xs)"
    and "r * real (length xs) \<le> real (count_upto v xs)"
    and "rank_error xs r v = 0"
proof -
  let ?n = "length xs" and ?k = "nat \<lceil>r * real (length xs)\<rceil>"
  have n: "0 < ?n" using assms(1) by simp
  have k: "?k \<le> ?n" using assms(2,3) by (rule position_le)
  have "?k - 1 < ?n" using n k by (rule pred_less)
  then have i: "?k - 1 < length (sort xs)" by simp
  have "v \<in> set (sort xs)" unfolding v_def using i by (rule nth_mem)
  then show "v \<in> set xs" by simp
  have b: "count_below v xs \<le> ?k - 1"
    using below_sorted_nth [OF sorted_sort i] below_mset [of xs "sort xs" v]
    by (simp add: v_def)
  have u: "?k - 1 < count_upto v xs"
    using upto_sorted_nth [OF sorted_sort i] upto_mset [of xs "sort xs" v]
    by (simp add: v_def)
  show lo: "real (count_below v xs) \<le> r * real ?n"
  proof (cases "?k = 0")
    case True
    with b have "count_below v xs = 0" by simp
    then show ?thesis using assms(2) by simp
  next
    case False
    then have "0 < \<lceil>r * real ?n\<rceil>" by linarith
    then have "int (?k - 1) = \<lceil>r * real ?n\<rceil> - 1" by linarith
    then have "real_of_int (int (?k - 1)) = real_of_int (\<lceil>r * real ?n\<rceil> - 1)" by (rule arg_cong)
    then have "real (?k - 1) = real_of_int \<lceil>r * real ?n\<rceil> - 1" by simp
    also have "\<dots> < r * real ?n" by linarith
    finally show ?thesis using b by linarith
  qed
  show hi: "r * real ?n \<le> real (count_upto v xs)"
  proof -
    have "r * real ?n \<le> real_of_int \<lceil>r * real ?n\<rceil>" by linarith
    also have "\<dots> \<le> real ?k" by simp
    also have "\<dots> \<le> real (count_upto v xs)"
    proof -
      from u have "?k \<le> count_upto v xs" by arith
      then show ?thesis by (simp only: of_nat_le_iff)
    qed
    finally show ?thesis .
  qed
  have "real (count_below v xs) / real ?n \<le> r" using lo n by (simp add: divide_le_eq)
  moreover have "r \<le> real (count_upto v xs) / real ?n" using hi n by (simp add: le_divide_eq)
  ultimately show "rank_error xs r v = 0"
    by (simp add: rank_error_def Let_def)
qed

subsection \<open>The quantile estimate of line 46\<close>

lemma relativeError_passed_zero: "relativeError_passed = 0"
  by (simp add: relativeError_passed_def)

lemma values_example_rows: "column_values ''numeric_column'' example_rows = [1, 5, 3]"
  by (simp add: column_values_def example_rows_def cell_def)

lemma values_example_same: "column_values ''numeric_column'' example_same = [4, 4]"
  by (simp add: column_values_def example_same_def cell_def)

text \<open>
  The relative error the script passes at line 46 is \<open>0.0\<close>, which is not strictly
  positive.
\<close>

theorem relative_error_counterexample:
  "\<not> (0 < relativeError_passed \<and> relativeError_passed < 1)"
  by (simp add: relativeError_passed_def)

text \<open>
  Claim C4, amended. The relative error passed to the quantile computation at line 46 is
  the constant \<open>0.0\<close> (exact quantiles): it satisfies \<open>0 \<le> epsilon < 1\<close>, and line 46 is the
  call of \<open>approxQuantile\<close> with that value.
\<close>

theorem relative_error_passed:
  "relativeError_passed = 0 \<and> 0 \<le> relativeError_passed \<and> relativeError_passed < 1 \<and>
   assign_quantiles s =
     (case approxQuantile (df s) ''numeric_column'' [0.05, 0.95] 0 of
        Inl e \<Rightarrow> Inl e
      | Inr qs \<Rightarrow> Inr (s\<lparr>quantiles := Some qs\<rparr>))"
  by (simp add: relativeError_passed_def assign_quantiles_def)

text \<open>
  Claim C1. For every data frame, that is for every way of splitting the rows into
  partitions, every numeric column with at least one value and every list of ranks in
  \<open>[0, 1]\<close>, the quantile computation of line 46 returns one value per rank; each is a value
  of the column, and its rank in the whole column is within the relative error passed
  (\<open>0.0\<close>) of the requested rank.
\<close>

theorem approxQuantile_rank_error:
  assumes "map_of (schema d) c = Some t" and "numeric t"
    and "column_values c d \<noteq> []"
    and "\<forall>p \<in> set ps. 0 \<le> p \<and> p \<le> 1"
  shows "\<exists>qs. approxQuantile d c ps relativeError_passed = Inr qs \<and>
           list_all2 (\<lambda>p q. q \<in> set (column_values c d) \<and>
                            rank_error (column_values c d) p q \<le> relativeError_passed) ps qs"
proof -
  let ?xs = "column_values c d"
  let ?g = "\<lambda>p. sort ?xs ! (nat \<lceil>p * real (length ?xs)\<rceil> - 1)"
  have "approxQuantile d c ps relativeError_passed = Inr (map ?g ps)"
    unfolding relativeError_passed_zero using assms(1,2,4,3) by (rule approxQuantile_exact)
  moreover have "list_all2 (\<lambda>p q. q \<in> set ?xs \<and> rank_error ?xs p q \<le> relativeError_passed)
      ps (map ?g ps)"
    using assms(3,4) order_statistic_rank(1,4) [of ?xs]
    by (simp add: list_all2_map2 list_all2_same relativeError_passed_zero)
  ultimately show ?thesis by blast
qed

theorem approxQuantile_rank_error_witness:
  "map_of (schema example_rows) ''numeric_column'' = Some DoubleType \<and> numeric DoubleType \<and>
   column_values ''numeric_column'' example_rows = [1, 5, 3] \<and>
   (\<exists>qs. approxQuantile example_rows ''numeric_column'' [0.05, 0.95] relativeError_passed = Inr qs \<and>
      list_all2 (\<lambda>p q. q \<in> set (column_values ''numeric_column'' example_rows) \<and>
                    rank_error (column_values ''numeric_column'' example_rows) p q
                      \<le> relativeError_passed) [0.05, 0.95] qs)"
proof -
  have a: "map_of (schema example_rows) ''numeric_column'' = Some DoubleType"
    by (simp add: example_rows_def)
  have b: "numeric DoubleType" by (simp add: numeric_def)
  have c: "column_values ''numeric_column'' example_rows \<noteq> []"
    by (simp add: values_example_rows)
  have d: "\<forall>p \<in> set [0.05, 0.95 :: real]. 0 \<le> p \<and> p \<le> 1" by simp
  from approxQuantile_rank_error [OF a b c d] a b show ?thesis
    by (simp add: values_example_rows)
qed

text \<open>
  Claim C5. Merging a sketch whose values are strictly ascending (as those of every sketch
  built by insertion and merging are: \<open>well_formed_partition_sketch\<close>,
  \<open>well_formed_global_sketch\<close>) with the empty sketch, on either side, yields that sketch
  again, so every query has the same result. \<open>merge\<close> is a total function: it has no error
  to raise.
\<close>

theorem merge_empty_identity:
  assumes "ascending s"
  shows "merge s empty_sketch = s \<and> merge empty_sketch s = s \<and>
         query (merge s empty_sketch) rank = query s rank \<and>
         query (merge empty_sketch s) rank = query s rank"
proof -
  have "interleave s [] = s" by (cases s) auto
  then show ?thesis using assms by (simp add: merge_def empty_sketch_def compress_ascending)
qed

theorem merge_empty_identity_witness:
  "ascending [(1, 2), (3, 1)] \<and> merge [(1, 2), (3, 1)] empty_sketch = [(1, 2), (3, 1)] \<and>
   merge empty_sketch [(1, 2), (3, 1)] = [(1, 2), (3, 1)] \<and>
   query (merge [(1, 2), (3, 1)] empty_sketch) 0.5 = Some 1"
proof -
  have a: "ascending [(1, 2), (3, 1)]" by (simp add: ascending_def)
  have "query [(1, 2), (3, 1)] 0.5 = Some 1" by (simp add: query_def total_weight_def)
  with a merge_empty_identity [OF a, of "0.5"] show ?thesis by simp
qed

lemma lines_46_48:
  "lines_between 46 48 (script eng) =
     [(46, assign_quantiles), (47, assign_lower_bound), (48, assign_upper_bound)]"
  by (simp add: lines_between_def script_def)

lemma lines_46_72:
  "lines_between 46 72 (script eng) =
     (46, assign_quantiles) # (47, assign_lower_bound) # drop 10 (script eng)"
  by (simp add: lines_between_def script_def)

text \<open>
  Claim C7. For a numeric column with at least one value: when all its values are equal to
  \<open>v\<close>, lines 46 to 48 succeed and assign \<open>lower_bound = upper_bound = v\<close>; and for every
  rank \<open>p\<close> in \<open>[0, 1]\<close> the quantile returned is exact: it is the value at position
  \<open>ceiling (p * N)\<close> of the sorted column (the first for \<open>p = 0\<close>). With relative error zero
  this holds however many distinct values the column has.
\<close>

theorem exact_quantiles:
  assumes "map_of (schema (df s)) ''numeric_column'' = Some t" and "numeric t"
    and "column_values ''numeric_column'' (df s) \<noteq> []"
  shows "((\<forall>x \<in> set (column_values ''numeric_column'' (df s)). x = v) \<longrightarrow>
            run (lines_between 46 48 (script eng)) s =
              ([46, 47, 48],
               Inr (s\<lparr>quantiles := Some [v, v], lower_bound := Some v, upper_bound := Some v\<rparr>))) \<and>
         ((\<forall>p \<in> set ps. 0 \<le> p \<and> p \<le> 1) \<longrightarrow>
            approxQuantile (df s) ''numeric_column'' ps relativeError_passed =
              Inr (map (\<lambda>p. sort (column_values ''numeric_column'' (df s)) !
                     (nat \<lceil>p * real (length (column_values ''numeric_column'' (df s)))\<rceil> - 1)) ps))"
proof -
  let ?xs = "column_values ''numeric_column'' (df s)"
  have exact: "approxQuantile (df s) ''numeric_column'' qs relativeError_passed =
      Inr (map (\<lambda>p. sort ?xs ! (nat \<lceil>p * real (length ?xs)\<rceil> - 1)) qs)"
    if "\<forall>p \<in> set qs. 0 \<le> p \<and> p \<le> 1" for qs
    unfolding relativeError_passed_zero using assms(1,2) that assms(3)
    by (rule approxQuantile_exact)
  have same: "sort ?xs ! (nat \<lceil>p * real (length ?xs)\<rceil> - 1) = v"
    if "\<forall>x \<in> set ?xs. x = v" "0 \<le> p" "p \<le> 1" for p
    using order_statistic_rank(1) [OF assms(3) that(2,3)] that(1) by blast
  have "run (lines_between 46 48 (script eng)) s =
      ([46, 47, 48],
       Inr (s\<lparr>quantiles := Some [v, v], lower_bound := Some v, upper_bound := Some v\<rparr>))"
    if all: "\<forall>x \<in> set ?xs. x = v"
  proof -
    have "approxQuantile (df s) ''numeric_column'' [0.05, 0.95] relativeError_passed = Inr [v, v]"
      using exact [of "[0.05, 0.95]"] same [OF all, of "0.05"] same [OF all, of "0.95"]
      by simp
    then show ?thesis
      by (simp add: lines_46_48 assign_quantiles_def assign_lower_bound_def
          assign_upper_bound_def getitem_def)
  qed
  with exact show ?thesis by blast
qed

theorem exact_quantiles_witness:
  "map_of (schema (df (start example_same))) ''numeric_column'' = Some IntegerType \<and>
   numeric IntegerType \<and>
   column_values ''numeric_column'' (df (start example_same)) = [4, 4] \<and>
   run (lines_between 46 48 (script idle)) (start example_same) =
     ([46, 47, 48],
      Inr ((start example_same)\<lparr>quantiles := Some [4, 4], lower_bound := Some 4,
                                   upper_bound := Some 4\<rparr>)) \<and>
   approxQuantile (df (start example_same)) ''numeric_column'' [0.5] relativeError_passed =
     Inr [4]"
proof -
  have d: "df (start example_same) = example_same" by (simp add: start_def)
  have a: "map_of (schema (df (start example_same))) ''numeric_column'' = Some IntegerType"
    unfolding d by (simp add: example_same_def)
  have b: "numeric IntegerType" by (simp add: numeric_def)
  have c: "column_values ''numeric_column'' (df (start example_same)) \<noteq> []"
    by (simp add: d values_example_same)
  from exact_quantiles [OF a b c, of 4 idle "[0.5]"] a b show ?thesis
    by (simp add: d values_example_same)
qed

lemma values_example_no_rows: "column_values ''numeric_column'' example_no_rows = []"
  by (simp add: column_values_def example_no_rows_def)

lemma values_example_only_nulls: "column_values ''numeric_column'' example_only_nulls = []"
  by (simp add: column_values_def example_only_nulls_def cell_def)

text \<open>
  When no row is left and \<open>numeric_column\<close> is a \<open>double\<close> column, the quantile computation
  of line 46 does not fail: it returns the empty list, and the run ends at line 47 with an
  \<open>IndexError\<close>. When \<open>numeric_column\<close> holds only nulls and is a string column for that,
  line 46 itself raises an \<open>IllegalArgumentException\<close>.
\<close>

theorem empty_column_counterexample:
  "approxQuantile example_no_rows ''numeric_column'' [0.05, 0.95] relativeError_passed = Inr [] \<and>
   run [(46, assign_quantiles), (47, assign_lower_bound), (48, assign_upper_bound),
        (50, cap_numeric_column)] (start example_no_rows) = ([46, 47], Inl IndexError) \<and>
   approxQuantile example_only_nulls ''numeric_column'' [0.05, 0.95] relativeError_passed =
     Inl IllegalArgumentException \<and>
   run [(46, assign_quantiles), (47, assign_lower_bound), (48, assign_upper_bound),
        (50, cap_numeric_column)] (start example_only_nulls) =
     ([46], Inl IllegalArgumentException)"
  by (simp add: start_def example_no_rows_def example_only_nulls_def
      assign_quantiles_def assign_lower_bound_def getitem_def approxQuantile_def numeric_def
      relativeError_passed_def global_sketch_def partition_sketch_def empty_sketch_def
      merge_def query_def total_weight_def cell_def)

text \<open>
  Claim C2, amended. When the target column contributes no numeric value, the script fails
  in one of two ways, neither of them an \<open>EmptySketch\<close> or \<open>StageFailed\<close> error. If the
  column is of a numeric type, the quantile computation of line 46 returns the empty list
  and the script fails at line 47 (\<open>quantiles[0]\<close>) with an \<open>IndexError\<close>. If the column is
  not of a numeric type, line 46 itself raises an \<open>IllegalArgumentException\<close>. Nothing
  catches either: no bounds are assigned, no later statement runs and nothing is written.
\<close>

theorem empty_column_index_error:
  assumes "map_of (schema (df s)) ''numeric_column'' = Some t"
    and "column_values ''numeric_column'' (df s) = []"
  shows "(numeric t \<longrightarrow>
            approxQuantile (df s) ''numeric_column'' [0.05, 0.95] relativeError_passed = Inr [] \<and>
            run (lines_between 46 72 (script eng)) s = ([46, 47], Inl IndexError)) \<and>
         (\<not> numeric t \<longrightarrow>
            approxQuantile (df s) ''numeric_column'' [0.05, 0.95] relativeError_passed =
              Inl IllegalArgumentException \<and>
            run (lines_between 46 72 (script eng)) s = ([46], Inl IllegalArgumentException))"
proof -
  have "run (lines_between 46 72 (script eng)) s = ([46, 47], Inl IndexError)"
    and "approxQuantile (df s) ''numeric_column'' [0.05, 0.95] relativeError_passed = Inr []"
    if "numeric t"
  proof -
    show q: "approxQuantile (df s) ''numeric_column'' [0.05, 0.95] relativeError_passed = Inr []"
      unfolding relativeError_passed_zero using assms(1) that _ assms(2)
      by (rule approxQuantile_no_values) simp
    show "run (lines_between 46 72 (script eng)) s = ([46, 47], Inl IndexError)"
      using q by (simp add: lines_46_72 assign_quantiles_def assign_lower_bound_def getitem_def)
  qed
  moreover have "run (lines_between 46 72 (script eng)) s = ([46], Inl IllegalArgumentException)"
    and "approxQuantile (df s) ''numeric_column'' [0.05, 0.95] relativeError_passed =
      Inl IllegalArgumentException"
    if "\<not> numeric t"
  proof -
    show q: "approxQuantile (df s) ''numeric_column'' [0.05, 0.95] relativeError_passed =
      Inl IllegalArgumentException"
      using assms(1) that by (simp add: approxQuantile_def relativeError_passed_def)
    show "run (lines_between 46 72 (script eng)) s = ([46], Inl IllegalArgumentException)"
      using q by (simp add: lines_46_72 assign_quantiles_def)
  qed
  ultimately show ?thesis by blast
qed

theorem empty_column_index_error_witness:
  "map_of (schema (df (start example_no_rows))) ''numeric_column'' = Some DoubleType \<and>
   numeric DoubleType \<and>
   column_values ''numeric_column'' (df (start example_no_rows)) = [] \<and>
   approxQuantile (df (start example_no_rows)) ''numeric_column'' [0.05, 0.95]
     relativeError_passed = Inr [] \<and>
   run (lines_between 46 72 (script sample_engine)) (start example_no_rows) =
     ([46, 47], Inl IndexError) \<and>
   map_of (schema (df (start example_only_nulls))) ''numeric_column'' = Some StringType \<and>
   \<not> numeric StringType \<and>
   column_values ''numeric_column'' (df (start example_only_nulls)) = [] \<and>
   run (lines_between 46 72 (script sample_engine)) (start example_only_nulls) =
     ([46], Inl IllegalArgumentException)"
proof -
  have d: "df (start example_no_rows) = example_no_rows"
    and d': "df (start example_only_nulls) = example_only_nulls"
    by (simp_all add: start_def)
  have a: "map_of (schema (df (start example_no_rows))) ''numeric_column'' = Some DoubleType"
    unfolding d by (simp add: example_no_rows_def)
  have b: "numeric DoubleType" by (simp add: numeric_def)
  have c: "column_values ''numeric_column'' (df (start example_no_rows)) = []"
    by (simp add: d values_example_no_rows)
  have a': "map_of (schema (df (start example_only_nulls))) ''numeric_column'' = Some StringType"
    unfolding d' by (simp add: example_only_nulls_def)
  have b': "\<not> numeric StringType" by (simp add: numeric_def)
  have c': "column_values ''numeric_column'' (df (start example_only_nulls)) = []"
    by (simp add: d' values_example_only_nulls)
  from empty_column_index_error [OF a c, of sample_engine]
    empty_column_index_error [OF a' c', of sample_engine] a b c a' b' c'
  show ?thesis by simp
qed

text \<open>
  The bounds that lines 46 to 48 assign are ordered, so the capping stage of the script
  only ever works with \<open>lower_bound \<le> upper_bound\<close>.
\<close>

lemma bounds_ordered:
  assumes "run (lines_between 46 48 (script eng)) s = (ls, Inr s')"
  shows "\<exists>lo hi. lower_bound s' = Some lo \<and> upper_bound s' = Some hi \<and> lo \<le> hi"
proof -
  let ?xs = "column_values ''numeric_column'' (df s)"
  let ?g = "\<lambda>p. sort ?xs ! (nat \<lceil>p * real (length ?xs)\<rceil> - 1)"
  from assms obtain qs lo hi
    where q: "approxQuantile (df s) ''numeric_column'' [0.05, 0.95] 0 = Inr qs"
      and lo: "getitem qs 0 = Inr lo" and hi: "getitem qs 1 = Inr hi"
      and s': "s' = s\<lparr>quantiles := Some qs, lower_bound := Some lo, upper_bound := Some hi\<rparr>"
    by (auto simp: lines_46_48 assign_quantiles_def assign_lower_bound_def
        assign_upper_bound_def relativeError_passed_zero split: sum.splits)
  from approxQuantile_Inr [OF q] obtain t
    where t: "map_of (schema (df s)) ''numeric_column'' = Some t" "numeric t" by auto
  have ne: "?xs \<noteq> []"
  proof
    assume "?xs = []"
    with t have "approxQuantile (df s) ''numeric_column'' [0.05, 0.95] 0 = Inr []"
      by (intro approxQuantile_no_values) simp_all
    with q lo show False by (simp add: getitem_def)
  qed
  with t have "approxQuantile (df s) ''numeric_column'' [0.05, 0.95] 0 = Inr (map ?g [0.05, 0.95])"
    by (intro approxQuantile_exact) simp_all
  with q lo hi have lo': "lo = ?g 0.05" and hi': "hi = ?g 0.95"
    by (auto simp: getitem_def)
  have a: "nat \<lceil>0.05 * real (length ?xs)\<rceil> \<le> nat \<lceil>0.95 * real (length ?xs)\<rceil>"
    by (intro nat_mono ceiling_mono) simp
  have b: "nat \<lceil>0.95 * real (length ?xs)\<rceil> \<le> length ?xs"
    by (rule position_le) simp_all
  have c: "0 < length ?xs" using ne by simp
  have "nat \<lceil>0.05 * real (length ?xs)\<rceil> - 1 \<le> nat \<lceil>0.95 * real (length ?xs)\<rceil> - 1"
    using a by (rule diff_le_mono)
  moreover have "nat \<lceil>0.95 * real (length ?xs)\<rceil> - 1 < length (sort ?xs)"
    using pred_less [OF c b] by (simp only: length_sort)
  ultimately have "?g 0.05 \<le> ?g 0.95" by (intro sorted_nth_mono sorted_sort)
  then have "lo \<le> hi" unfolding lo' hi' .
  then show ?thesis by (simp add: s')
qed

lemma capping_inverted_bounds:
  "capping DoubleType 5 3 (capping DoubleType 5 3 (Num 0)) \<noteq> capping DoubleType 5 3 (Num 0)"
  by (simp add: capping_eq)

text \<open>
  Claim C6. With the bounds that lines 46 to 48 of the script compute, whatever the data,
  capping is idempotent: for a cell \<open>v\<close> of a column of any type \<open>t\<close>, capping the capped
  value (a \<open>double\<close>) again with the same bounds gives the capped value.
\<close>

theorem capping_idempotent:
  assumes "run (lines_between 46 48 (script eng)) s = (ls, Inr s')"
  shows "\<exists>lo hi. lower_bound s' = Some lo \<and> upper_bound s' = Some hi \<and>
           (\<forall>t v. capping DoubleType lo hi (capping t lo hi v) = capping t lo hi v)"
proof -
  from bounds_ordered [OF assms] obtain lo hi
    where "lower_bound s' = Some lo" "upper_bound s' = Some hi" "lo \<le> hi" by blast
  then show ?thesis using capping_idempotent_ordered by blast
qed

theorem capping_idempotent_witness:
  "run (lines_between 46 48 (script idle)) (start example_rows) =
     ([46, 47, 48],
      Inr ((start example_rows)\<lparr>quantiles := Some [1, 5], lower_bound := Some 1,
                                   upper_bound := Some 5\<rparr>)) \<and>
   capping LongType 1 5 (Num 7) = Num 5 \<and>
   capping DoubleType 1 5 (capping LongType 1 5 (Num 7)) = Num 5"
proof -
  let ?s' = "(start example_rows)\<lparr>quantiles := Some [1, 5], lower_bound := Some 1,
                                   upper_bound := Some 5\<rparr>"
  have r: "run (lines_between 46 48 (script idle)) (start example_rows) = ([46, 47, 48], Inr ?s')"
    by (simp add: lines_46_48 start_def example_rows_def assign_quantiles_def
        assign_lower_bound_def assign_upper_bound_def getitem_def approxQuantile_def
        numeric_def relativeError_passed_def global_sketch_def partition_sketch_def
        empty_sketch_def merge_def query_def total_weight_def cell_def)
  from capping_idempotent [OF r] obtain lo hi
    where "lower_bound ?s' = Some lo" "upper_bound ?s' = Some hi"
      and i: "\<forall>t v. capping DoubleType lo hi (capping t lo hi v) = capping t lo hi v"
    by blast
  then have lo: "lo = 1" and hi: "hi = 5" by simp_all
  have e: "long_to_double 7 = 7" using long_to_double_exact [of 7] by simp
  have c: "capping LongType 1 5 (Num 7) = Num 5"
    by (simp add: capping_eq coerce_Num e)
  from i have "capping DoubleType 1 5 (capping LongType 1 5 (Num 7)) = capping LongType 1 5 (Num 7)"
    unfolding lo hi by blast
  with r c show ?thesis by simp
qed

end
